theory Spec2Isabelle
  imports Main "HOL-Library.Multiset"
begin

section \<open>Strings of the host language\<close>

text \<open>
  A JavaScript string is a sequence of UTF-16 code units. The model writes it as a
  \<^typ>\<open>string\<close> whose characters are the code units below 256 (ASCII and Latin-1):
  \<open>length\<close> counts code units, as \<^verbatim>\<open>.length\<close> does.
\<close>

definition codeUnit :: "char \<Rightarrow> int" where
  "codeUnit c = of_char c"

text \<open>\<^verbatim>\<open>String.prototype.toLowerCase\<close>, one code unit at a time: the ASCII capitals and
  the Latin-1 capitals (U+00C0 to U+00DE without the multiplication sign U+00D7) move up by 32.\<close>

definition toLowerChar :: "char \<Rightarrow> char" where
  "toLowerChar c =
     (let n = codeUnit c
      in if (65 \<le> n \<and> n \<le> 90) \<or> (192 \<le> n \<and> n \<le> 222 \<and> n \<noteq> 215)
         then char_of (n + 32) else c)"

definition toLowerCase :: "string \<Rightarrow> string" where
  "toLowerCase s = map toLowerChar s"

text \<open>\<^verbatim>\<open>text.startsWith(needle)\<close> and \<^verbatim>\<open>text.includes(needle)\<close> (named \<open>includesStr\<close>: \<open>includes\<close> is reserved).\<close>

fun startsWith :: "string \<Rightarrow> string \<Rightarrow> bool" where
  "startsWith hay [] = True"
| "startsWith [] (n # ns) = False"
| "startsWith (c # cs) (n # ns) = (c = n \<and> startsWith cs ns)"

fun includesStr :: "string \<Rightarrow> string \<Rightarrow> bool" where
  "includesStr [] needle = (needle = [])"
| "includesStr (c # cs) needle = (startsWith (c # cs) needle \<or> includesStr cs needle)"

section \<open>Array.prototype.sort with a comparison function\<close>

text \<open>
  \<^verbatim>\<open>xs.sort(cmp)\<close> puts \<open>a\<close> before \<open>b\<close> when \<open>cmp a b < 0\<close> and is stable: elements
  that compare as equal keep their order. For a consistent comparison function this
  fixes the result, and it is the result of the stable insertion sort below. For an
  inconsistent one the language leaves the order to the engine (the result is still a
  permutation of the input); the model then returns what insertion sort returns.
\<close>

fun insertBy :: "('a \<Rightarrow> 'a \<Rightarrow> int) \<Rightarrow> 'a \<Rightarrow> 'a list \<Rightarrow> 'a list" where
  "insertBy cmp x [] = [x]"
| "insertBy cmp x (y # ys) = (if cmp x y \<le> 0 then x # y # ys else y # insertBy cmp x ys)"

fun sortBy :: "('a \<Rightarrow> 'a \<Rightarrow> int) \<Rightarrow> 'a list \<Rightarrow> 'a list" where
  "sortBy cmp [] = []"
| "sortBy cmp (x # xs) = insertBy cmp x (sortBy cmp xs)"

section \<open>The job posting\<close>

text \<open>What \<^verbatim>\<open>JobExtractor.extract\<close> produces. Callers pass it as \<^verbatim>\<open>jobDescription\<close>, which
  may be \<^verbatim>\<open>null\<close> (\<open>None\<close>); every field is a string, possibly empty.\<close>

record jobPosting =
  title :: string
  company :: string
  description :: string
  location :: string
  url :: string
  extractedAt :: string

text \<open>\<^verbatim>\<open>!jobDescription?.description\<close>: no posting, or an empty description.\<close>

definition noDescription :: "jobPosting option \<Rightarrow> bool" where
  "noDescription job = (case job of None \<Rightarrow> True | Some j \<Rightarrow> jobPosting.description j = [])"

section \<open>ResumeTailor.prioritizeSkills\<close>

definition skillScore :: "string \<Rightarrow> string \<Rightarrow> int" where
  "skillScore jobText skill = (if includesStr jobText (toLowerCase skill) then 10 else 0)"

definition skillCompare :: "(string \<times> int) \<Rightarrow> (string \<times> int) \<Rightarrow> int" where
  "skillCompare a b = snd b - snd a"

definition prioritizeSkills :: "string list \<Rightarrow> jobPosting option \<Rightarrow> string list" where
  "prioritizeSkills skills job =
     (if skills = [] then []
      else case job of
        None \<Rightarrow> skills
      | Some j \<Rightarrow>
          if jobPosting.description j = [] then skills
          else let jobText = toLowerCase (jobPosting.description j);
                   scored = map (\<lambda>skill. (skill, skillScore jobText skill)) skills
               in map fst (sortBy skillCompare scored))"

text \<open>The claim's words: a skill occurs case-insensitively as a substring of the
  description when some stretch of the description equals it up to letter case.\<close>

definition occursIgnoringCase :: "string \<Rightarrow> string \<Rightarrow> bool" where
  "occursIgnoringCase skill desc =
     (\<exists>before mid after. desc = before @ mid @ after \<and> toLowerCase mid = toLowerCase skill)"

definition claimedSkillScore :: "string \<Rightarrow> string \<Rightarrow> int" where
  "claimedSkillScore desc skill = (if occursIgnoringCase skill desc then 10 else 0)"

section \<open>ResumeTailor.extractKeywords\<close>

text \<open>\<^verbatim>\<open>\w\<close> of a regular expression: an ASCII letter, a digit or the underscore.\<close>

definition isWordChar :: "char \<Rightarrow> bool" where
  "isWordChar c =
     (let n = codeUnit c
      in (48 \<le> n \<and> n \<le> 57) \<or> (65 \<le> n \<and> n \<le> 90) \<or> n = 95 \<or> (97 \<le> n \<and> n \<le> 122))"

text \<open>
  \<^verbatim>\<open>text.split(/\W+/)\<close>: the pieces between maximal runs of non-word characters. A
  text that starts or ends with such a run gets an empty first or last piece.
  \<open>cur\<close> is the piece being read, \<open>inSep\<close> says that the last character read was a
  separator.
\<close>

fun splitLoop :: "string \<Rightarrow> bool \<Rightarrow> string \<Rightarrow> string list" where
  "splitLoop cur inSep [] = [cur]"
| "splitLoop cur inSep (c # cs) =
     (if isWordChar c then splitLoop (cur @ [c]) False cs
      else if inSep then splitLoop cur True cs
      else cur # splitLoop [] True cs)"

definition splitNonWord :: "string \<Rightarrow> string list" where
  "splitNonWord s = splitLoop [] False s"

text \<open>
  The object \<^verbatim>\<open>frequency\<close> starts as \<^verbatim>\<open>{}\<close>, so it inherits from \<^verbatim>\<open>Object.prototype\<close>.
  Its own properties are kept in creation order. A value is a count, or text: for the
  word \<^verbatim>\<open>constructor\<close> the first read \<^verbatim>\<open>frequency[word]\<close> finds the inherited function
  \<^verbatim>\<open>Object\<close>, and \<^verbatim>\<open>+ 1\<close> then concatenates. For the word \<^verbatim>\<open>__proto__\<close> the read finds
  the prototype object and the assignment of the resulting string is ignored by the
  \<^verbatim>\<open>__proto__\<close> setter, so no property is created. No other property of
  \<^verbatim>\<open>Object.prototype\<close> has an all lower-case name.
\<close>

datatype freqValue = Count int | Text string

type_synonym frequency = "(string \<times> freqValue) list"

fun getProp :: "frequency \<Rightarrow> string \<Rightarrow> freqValue option" where
  "getProp [] w = None"
| "getProp ((k, v) # ps) w = (if k = w then Some v else getProp ps w)"

fun setProp :: "string \<Rightarrow> freqValue \<Rightarrow> frequency \<Rightarrow> frequency" where
  "setProp w v [] = [(w, v)]"
| "setProp w v ((k, u) # ps) = (if k = w then (k, v) # ps else (k, u) # setProp w v ps)"

definition bump :: "frequency \<Rightarrow> string \<Rightarrow> frequency" where
  "bump freq w =
     (if w = ''__proto__'' then freq
      else case getProp freq w of
             None \<Rightarrow>
               if w = ''constructor''
               then setProp w (Text ''function Object() { [native code] }1'') freq
               else setProp w (Count 1) freq
           | Some (Count n) \<Rightarrow> setProp w (Count (n + 1)) freq
           | Some (Text t) \<Rightarrow> setProp w (Text (t @ ''1'')) freq)"

fun countWords :: "frequency \<Rightarrow> string list \<Rightarrow> frequency" where
  "countWords freq [] = freq"
| "countWords freq (w # ws) =
     (if length w > 3 then countWords (bump freq w) ws else countWords freq ws)"

text \<open>
  \<^verbatim>\<open>Object.entries\<close> lists the keys that are array indices first (canonical decimal
  numerals below \<open>2^32 - 1\<close>), in ascending numeric order, then the other keys in
  creation order.
\<close>

definition isDigit :: "char \<Rightarrow> bool" where
  "isDigit c = (48 \<le> codeUnit c \<and> codeUnit c \<le> 57)"

fun decimalValue :: "int \<Rightarrow> string \<Rightarrow> int" where
  "decimalValue acc [] = acc"
| "decimalValue acc (c # cs) = decimalValue (10 * acc + (codeUnit c - 48)) cs"

definition isArrayIndex :: "string \<Rightarrow> bool" where
  "isArrayIndex w =
     (w \<noteq> [] \<and> list_all isDigit w \<and> (hd w \<noteq> CHR ''0'' \<or> length w = 1)
      \<and> decimalValue 0 w < 4294967295)"

definition objectEntries :: "frequency \<Rightarrow> (string \<times> freqValue) list" where
  "objectEntries freq =
     sort_key (\<lambda>p. decimalValue 0 (fst p)) (filter (\<lambda>p. isArrayIndex (fst p)) freq)
     @ filter (\<lambda>p. \<not> isArrayIndex (fst p)) freq"

definition stopWords :: "string set" where
  "stopWords = set [''the'', ''and'', ''for'', ''with'', ''you'', ''your'', ''will'', ''have'', ''are'',
      ''our'', ''this'', ''that'', ''from'', ''they'', ''been'', ''more'', ''when'',
      ''what'', ''about'', ''which'', ''their'', ''work'', ''team'', ''also'']"

text \<open>\<^verbatim>\<open>(a, b) => b[1] - a[1]\<close>: the difference of two counts; with a text value the
  difference is \<^verbatim>\<open>NaN\<close>, which the sort reads as 0.\<close>

definition freqCompare :: "(string \<times> freqValue) \<Rightarrow> (string \<times> freqValue) \<Rightarrow> int" where
  "freqCompare a b =
     (case (snd b, snd a) of (Count m, Count n) \<Rightarrow> m - n | _ \<Rightarrow> 0)"

definition extractKeywords :: "string \<Rightarrow> string list" where
  "extractKeywords desc =
     (if desc = [] then []
      else let txt = toLowerCase desc;
               wordList = splitNonWord txt;
               frequency = countWords [] wordList
           in map fst (take 50 (sortBy freqCompare
                (filter (\<lambda>p. fst p \<notin> stopWords) (objectEntries frequency)))))"

section \<open>ResumeTailor.scoreRelevance and prioritizeExperience\<close>

fun scoreRelevance :: "string \<Rightarrow> string list \<Rightarrow> int" where
  "scoreRelevance txt [] = 0"
| "scoreRelevance txt (keyword # keywords) =
     (if includesStr txt keyword then 1 else 0) + scoreRelevance txt keywords"

text \<open>An entry of \<^verbatim>\<open>resume.experience\<close>. \<open>startDate\<close> is optional in the code
  (\<^verbatim>\<open>a.startDate?.year || 0\<close>).\<close>

record monthYear =
  month :: int
  year :: int

record experience =
  title :: string
  description :: string
  companyName :: string
  startDate :: "monthYear option"
  endDate :: "monthYear option"
  currentlyWorking :: bool

text \<open>\<^verbatim>\<open>{...exp, score: ...}\<close>: the entry with its relevance score.\<close>

record scoredExperience = experience +
  score :: int

definition withScore :: "string list \<Rightarrow> experience \<Rightarrow> scoredExperience" where
  "withScore jobKeywords exp =
     experience.extend exp
       (scoredExperience.fields
          (scoreRelevance
             (toLowerCase (experience.title exp @ '' '' @ experience.description exp))
             jobKeywords))"

definition startYear :: "'a experience_scheme \<Rightarrow> int" where
  "startYear e = (case startDate e of None \<Rightarrow> 0 | Some d \<Rightarrow> year d)"

definition experienceCompare :: "scoredExperience \<Rightarrow> scoredExperience \<Rightarrow> int" where
  "experienceCompare a b =
     (let scoreDiff = score b - score a
      in if \<bar>scoreDiff\<bar> > 5 then scoreDiff
         else let dateA = startYear a; dateB = startYear b in dateB - dateA)"

text \<open>The result is the input itself (entries without a score) when the list is empty
  or no description is available, and the scored, sorted list otherwise.
  \<open>jobKeywords\<close> is the field \<^verbatim>\<open>this.jobKeywords\<close>, which \<^verbatim>\<open>tailor\<close> sets to
  \<open>extractKeywords\<close> of the description before it calls \<^verbatim>\<open>prioritizeExperience\<close>.\<close>

datatype prioritized = Unscored "experience list" | Scored "scoredExperience list"

definition prioritizeExperience ::
    "string list \<Rightarrow> experience list \<Rightarrow> jobPosting option \<Rightarrow> prioritized" where
  "prioritizeExperience jobKeywords exps job =
     (if exps = [] then Unscored []
      else if noDescription job then Unscored exps
      else Scored (sortBy experienceCompare (map (withScore jobKeywords) exps)))"

text \<open>The claim's words for a pair of entries, \<open>a\<close> before \<open>b\<close> in the returned list:
  when the scores differ by more than 5 the higher-scoring one comes first; otherwise
  the one with the later start year does not come second.\<close>

definition claimedPairOrder :: "scoredExperience \<Rightarrow> scoredExperience \<Rightarrow> bool" where
  "claimedPairOrder a b =
     (if \<bar>score a - score b\<bar> > 5 then score a > score b else startYear a \<ge> startYear b)"

text \<open>Example data: a posting whose description has eight keywords, and three entries
  that match none, four and all eight of them.\<close>

definition examplePosting :: "string \<Rightarrow> jobPosting" where
  "examplePosting d =
     \<lparr>jobPosting.title = ''Engineer'', company = ''Acme'', description = d,
      location = ''Remote'', url = ''https://jobs.lever.co/acme/1'', extractedAt = ''''\<rparr>"

definition eightWords :: string where
  "eightWords = ''alpha bravo delta gamma kappa sigma theta omega''"

definition exampleEntry :: "string \<Rightarrow> string \<Rightarrow> int \<Rightarrow> experience" where
  "exampleEntry t d y =
     \<lparr>experience.title = t, description = d, companyName = ''Acme'',
      startDate = Some \<lparr>month = 1, year = y\<rparr>, endDate = None, currentlyWorking = False\<rparr>"

definition scoredEntry :: "string \<Rightarrow> string \<Rightarrow> int \<Rightarrow> int \<Rightarrow> scoredExperience" where
  "scoredEntry t d y s = experience.extend (exampleEntry t d y) (scoredExperience.fields s)"

definition cyclicExperience :: "experience list" where
  "cyclicExperience =
     [exampleEntry ''Clerk'' '''' 2020,
      exampleEntry ''Developer'' ''alpha bravo delta gamma'' 2010,
      exampleEntry ''Lead'' eightWords 2000]"

section \<open>Regular expressions of the host\<close>

text \<open>
  The regular expressions the code uses, as syntax trees, with the backtracking
  semantics of the language: a matcher returns every way to match a prefix of the
  input, most preferred first (quantifiers are greedy, alternatives are tried left to
  right). All expressions of the code carry the flag \<^verbatim>\<open>i\<close>.
\<close>

datatype charClass = Lit char | Digit | Space

datatype regex =
    Eps
  | One charClass
  | Seq regex regex
  | Alt regex regex
  | Opt regex
  | Star regex
  | Group nat regex

text \<open>Canonicalisation under the flag \<^verbatim>\<open>i\<close>: the upper-case form. Among the code units
  below 256 the small ASCII and Latin-1 letters move down by 32; the units whose
  upper-case form lies above 255 or is longer than one unit equal no other unit.\<close>

definition canonicalize :: "char \<Rightarrow> char" where
  "canonicalize c =
     (let n = codeUnit c
      in if (97 \<le> n \<and> n \<le> 122) \<or> (224 \<le> n \<and> n \<le> 254 \<and> n \<noteq> 247)
         then char_of (n - 32) else c)"

definition isSpace :: "char \<Rightarrow> bool" where
  "isSpace c = (let n = codeUnit c in (9 \<le> n \<and> n \<le> 13) \<or> n = 32 \<or> n = 160)"

fun classMatches :: "charClass \<Rightarrow> char \<Rightarrow> bool" where
  "classMatches (Lit l) c = (canonicalize l = canonicalize c)"
| "classMatches Digit c = isDigit c"
| "classMatches Space c = isSpace c"

type_synonym captures = "(nat \<times> string) list"

type_synonym matchState = "string \<times> captures"

text \<open>\<open>matchR r (input, caps)\<close>: the states after matching \<open>r\<close> at the start of the
  input, in backtracking order. An iteration of \<open>Star\<close> that consumes nothing is
  rejected, as the language does.\<close>

function matchR :: "regex \<Rightarrow> matchState \<Rightarrow> matchState list" where
  "matchR Eps st = [st]"
| "matchR (One cls) st =
     (case fst st of [] \<Rightarrow> [] | c # cs \<Rightarrow> if classMatches cls c then [(cs, snd st)] else [])"
| "matchR (Seq r1 r2) st = concat (map (matchR r2) (matchR r1 st))"
| "matchR (Alt r1 r2) st = matchR r1 st @ matchR r2 st"
| "matchR (Opt r) st = matchR r st @ [st]"
| "matchR (Star r) st =
     concat (map (\<lambda>st'. if length (fst st') < length (fst st) then matchR (Star r) st' else [])
                 (matchR r st))
     @ [st]"
| "matchR (Group n r) st =
     map (\<lambda>st'. (fst st', (n, take (length (fst st) - length (fst st')) (fst st)) # snd st'))
         (matchR r st)"
  by pat_completeness auto
termination
  by (relation "measures [\<lambda>(r, st). size r, \<lambda>(r, st). length (fst st)]") auto

text \<open>Shorthands: \<^verbatim>\<open>r+\<close>, a run of literal characters, a sequence of expressions.\<close>

definition plusR :: "regex \<Rightarrow> regex" where
  "plusR r = Seq r (Star r)"

fun lits :: "string \<Rightarrow> regex" where
  "lits [] = Eps"
| "lits (c # cs) = Seq (One (Lit c)) (lits cs)"

fun seqs :: "regex list \<Rightarrow> regex" where
  "seqs [] = Eps"
| "seqs (r # rs) = Seq r (seqs rs)"

text \<open>\<^verbatim>\<open>regex.exec(text)\<close> without the flags \<^verbatim>\<open>g\<close> and \<^verbatim>\<open>y\<close>: the first match at the
  leftmost start position; the result is the captures of that match.\<close>

fun execFrom :: "regex \<Rightarrow> string \<Rightarrow> captures option" where
  "execFrom r [] = (case matchR r ([], []) of [] \<Rightarrow> None | st # _ \<Rightarrow> Some (snd st))"
| "execFrom r (c # cs) =
     (case matchR r (c # cs, []) of [] \<Rightarrow> execFrom r cs | st # _ \<Rightarrow> Some (snd st))"

definition regexTest :: "regex \<Rightarrow> string \<Rightarrow> bool" where
  "regexTest r s = (execFrom r s \<noteq> None)"

fun capture :: "captures \<Rightarrow> nat \<Rightarrow> string option" where
  "capture [] n = None"
| "capture ((k, s) # caps) n = (if k = n then Some s else capture caps n)"

section \<open>JobExtractor.extractYearsOfExperience\<close>

text \<open>\<^verbatim>\<open>(?:years?|yrs?)\<close>, and the three patterns of the code in their order:
  \<^verbatim>\<open>/(\d+)\+?\s*(?:years?|yrs?)\s*(?:of)?\s*(?:experience|exp)/i\<close>,
  \<^verbatim>\<open>/(?:minimum|at least|min)\s*(\d+)\s*(?:years?|yrs?)/i\<close> and
  \<^verbatim>\<open>/(\d+)\s*-\s*(\d+)\s*(?:years?|yrs?)/i\<close>.\<close>

definition yearsWord :: regex where
  "yearsWord = Alt (Seq (lits ''year'') (Opt (One (Lit CHR ''s''))))
                   (Seq (lits ''yr'') (Opt (One (Lit CHR ''s''))))"

definition yearsPatterns :: "regex list" where
  "yearsPatterns =
     [seqs [Group 1 (plusR (One Digit)), Opt (One (Lit CHR ''+'')), Star (One Space), yearsWord,
            Star (One Space), Opt (lits ''of''), Star (One Space),
            Alt (lits ''experience'') (lits ''exp'')],
      seqs [Alt (lits ''minimum'') (Alt (lits ''at least'') (lits ''min'')), Star (One Space),
            Group 1 (plusR (One Digit)), Star (One Space), yearsWord],
      seqs [Group 1 (plusR (One Digit)), Star (One Space), One (Lit CHR ''-''), Star (One Space),
            Group 2 (plusR (One Digit)), Star (One Space), yearsWord]]"

text \<open>\<^verbatim>\<open>parseInt\<close> on a captured group: the value of the leading decimal digits, or
  \<^verbatim>\<open>NaN\<close> when there is none (signs, leading blanks and the prefix \<^verbatim>\<open>0x\<close> do not occur
  in a group \<^verbatim>\<open>(\d+)\<close>).\<close>

datatype jsNumber = Number int | NaN

definition parseInt :: "string option \<Rightarrow> jsNumber" where
  "parseInt s =
     (case s of
        None \<Rightarrow> NaN
      | Some t \<Rightarrow> if takeWhile isDigit t = [] then NaN
                  else Number (decimalValue 0 (takeWhile isDigit t)))"

fun firstYearsMatch :: "regex list \<Rightarrow> string \<Rightarrow> jsNumber option" where
  "firstYearsMatch [] txt = None"
| "firstYearsMatch (pattern # patterns) txt =
     (case execFrom pattern txt of
        Some caps \<Rightarrow> Some (parseInt (capture caps 1))
      | None \<Rightarrow> firstYearsMatch patterns txt)"

text \<open>\<open>None\<close> is the result \<^verbatim>\<open>null\<close>. \<open>extractedData\<close> is the posting last extracted,
  if any.\<close>

definition extractYearsOfExperience :: "jobPosting option \<Rightarrow> jsNumber option" where
  "extractYearsOfExperience extractedData =
     (case extractedData of
        None \<Rightarrow> None
      | Some j \<Rightarrow>
          if jobPosting.description j = [] then None
          else firstYearsMatch yearsPatterns (jobPosting.description j))"

section \<open>The platform registry\<close>

text \<open>Errors of the host, as values.\<close>

datatype jsError = SyntaxError | TypeError | DOMError

text \<open>A value of the tailored profile, or of a value table: \<^verbatim>\<open>undefined\<close>, \<^verbatim>\<open>null\<close>, a
  string, an integral number, \<^verbatim>\<open>NaN\<close>, a boolean, or an object (functions included).\<close>

datatype jsValue = Undefined | Null | Str string | Num int | NaNValue | Bool bool | Obj string

text \<open>An action of a locator configuration: its \<^verbatim>\<open>method\<close>, \<^verbatim>\<open>path\<close>, \<^verbatim>\<open>delay\<close>, \<^verbatim>\<open>time\<close>,
  \<^verbatim>\<open>allowFailure\<close> and \<^verbatim>\<open>event\<close>. A field the configuration leaves out is \<open>None\<close>
  (\<open>False\<close> for \<open>allowFailure\<close>). Times are in milliseconds.\<close>

record action =
  amethod :: "string option"
  apath :: "string option"
  adelay :: "int option"
  atime :: "int option"
  allowFailure :: bool
  aevent :: "string option"

datatype pathSpec = NoPath | OnePath string | ManyPaths "string list"

datatype valuesSpec = NamedTransform string | ValueMap "(string \<times> jsValue) list"

text \<open>A configuration object: its \<^verbatim>\<open>path\<close> (absent, a string or an array), \<^verbatim>\<open>method\<close>,
  \<^verbatim>\<open>values\<close> (the name of a table or a table) and \<^verbatim>\<open>actions\<close>.\<close>

record complexConfig =
  cpath :: pathSpec
  cmethod :: "string option"
  cvalues :: "valuesSpec option"
  cactions :: "action list option"

text \<open>A candidate of a field: a bare locator string, a configuration object,
  \<^verbatim>\<open>null\<close>, or a value of any other type.\<close>

datatype selectorConfig = Simple string | Complex complexConfig | NullConfig | OtherConfig

text \<open>The value of a field in \<^verbatim>\<open>inputSelectors\<close>: a list of candidates or a single one.\<close>

datatype selectorSpec = ConfigList "selectorConfig list" | SingleConfig selectorConfig

text \<open>A platform configuration, with the fields the detector and the form filler read.
  \<open>inputSelectors\<close> is the \<^verbatim>\<open>Map\<close>, as its entries in insertion order.\<close>

record atsConfig =
  name :: string
  urls :: "string list option"
  urlsExcluded :: "string list option"
  defaultMethod :: "string option"
  inputSelectors :: "(string \<times> selectorSpec) list"

section \<open>ATSDetector\<close>

text \<open>\<^verbatim>\<open>s.replace(/c/g, rep)\<close> for a single character \<open>c\<close> and a replacement without
  \<^verbatim>\<open>$\<close>.\<close>

definition replaceChar :: "char \<Rightarrow> string \<Rightarrow> string \<Rightarrow> string" where
  "replaceChar c rep s = concat (map (\<lambda>x. if x = c then rep else [x]) s)"

definition backslash :: char where
  "backslash = CHR 0x5C"

text \<open>The four replacements of \<^verbatim>\<open>matchPattern\<close> (and of \<^verbatim>\<open>isExcluded\<close>, which repeats
  them), in the order of the code: \<^verbatim>\<open>*\<close> to \<^verbatim>\<open>.*\<close>, \<^verbatim>\<open>?\<close> to \<^verbatim>\<open>.\<close>, \<^verbatim>\<open>/\<close> to \<^verbatim>\<open>\/\<close>,
  and then every \<^verbatim>\<open>.\<close> to \<^verbatim>\<open>\.\<close>.\<close>

definition globToRegex :: "string \<Rightarrow> string" where
  "globToRegex pattern =
     replaceChar CHR ''.'' [backslash, CHR ''.'']
       (replaceChar CHR ''/'' [backslash, CHR ''/'']
         (replaceChar CHR ''?'' ''.''
           (replaceChar CHR ''*'' ''.*'' pattern)))"

text \<open>The host's \<^verbatim>\<open>new RegExp(source, 'i').test(url)\<close>: a result, or the error the
  constructor throws for a source it rejects.\<close>

type_synonym regExpHost = "string \<Rightarrow> string \<Rightarrow> jsError + bool"

definition matchPattern :: "regExpHost \<Rightarrow> string \<Rightarrow> string \<Rightarrow> string \<Rightarrow> jsError + bool" where
  "matchPattern host pageUrl hostname pattern = host (globToRegex pattern) pageUrl"

fun anyPatternMatches :: "regExpHost \<Rightarrow> string \<Rightarrow> string \<Rightarrow> string list \<Rightarrow> jsError + bool" where
  "anyPatternMatches host pageUrl hostname [] = Inr False"
| "anyPatternMatches host pageUrl hostname (pattern # patterns) =
     (case matchPattern host pageUrl hostname pattern of
        Inl e \<Rightarrow> Inl e
      | Inr True \<Rightarrow> Inr True
      | Inr False \<Rightarrow> anyPatternMatches host pageUrl hostname patterns)"

definition matchesUrl :: "regExpHost \<Rightarrow> string \<Rightarrow> string \<Rightarrow> atsConfig \<Rightarrow> jsError + bool" where
  "matchesUrl host pageUrl hostname config =
     (case urls config of
        None \<Rightarrow> Inr False
      | Some patterns \<Rightarrow> anyPatternMatches host pageUrl hostname patterns)"

fun anyExclusionMatches :: "regExpHost \<Rightarrow> string \<Rightarrow> string list \<Rightarrow> jsError + bool" where
  "anyExclusionMatches host pageUrl [] = Inr False"
| "anyExclusionMatches host pageUrl (pattern # patterns) =
     (case host (globToRegex pattern) pageUrl of
        Inl e \<Rightarrow> Inl e
      | Inr True \<Rightarrow> Inr True
      | Inr False \<Rightarrow> anyExclusionMatches host pageUrl patterns)"

definition isExcluded :: "regExpHost \<Rightarrow> string \<Rightarrow> atsConfig \<Rightarrow> jsError + bool" where
  "isExcluded host pageUrl config =
     (case urlsExcluded config of
        None \<Rightarrow> Inr False
      | Some patterns \<Rightarrow> anyExclusionMatches host pageUrl patterns)"

text \<open>\<^verbatim>\<open>detect\<close>, over the entries of the registry in the order of
  \<^verbatim>\<open>Object.entries\<close>. \<open>Inr None\<close> is the result \<^verbatim>\<open>null\<close>.\<close>

fun detect ::
    "regExpHost \<Rightarrow> (string \<times> atsConfig) list \<Rightarrow> string \<Rightarrow> string
     \<Rightarrow> jsError + (string \<times> atsConfig) option" where
  "detect host [] pageUrl hostname = Inr None"
| "detect host ((nm, config) # configs) pageUrl hostname =
     (case matchesUrl host pageUrl hostname config of
        Inl e \<Rightarrow> Inl e
      | Inr False \<Rightarrow> detect host configs pageUrl hostname
      | Inr True \<Rightarrow>
          (case isExcluded host pageUrl config of
             Inl e \<Rightarrow> Inl e
           | Inr True \<Rightarrow> detect host configs pageUrl hostname
           | Inr False \<Rightarrow> Inr (Some (nm, config))))"

subsection \<open>The regular expressions that pattern translation produces\<close>

text \<open>
  The sources that \<open>globToRegex\<close> produces from patterns without regular-expression
  metacharacters of their own are sequences of literal characters, escaped (\<^verbatim>\<open>\.\<close>,
  \<^verbatim>\<open>\/\<close>) or plain, each optionally followed by \<^verbatim>\<open>*\<close>. \<open>parseRegex\<close> reads exactly
  these sources; for any other source it gives \<open>None\<close>.
\<close>

definition isMetaChar :: "char \<Rightarrow> bool" where
  "isMetaChar c = (c \<in> set ''^$.*+?()[]{}|'' \<or> c = backslash)"

fun parseRegex :: "string \<Rightarrow> regex option" where
  "parseRegex [] = Some Eps"
| "parseRegex (c # cs) =
     (if c = backslash then
        (case cs of
           [] \<Rightarrow> None
         | e # rest \<Rightarrow>
             if e = CHR ''.'' \<or> e = CHR ''/'' then
               (case rest of
                  q # rest' \<Rightarrow>
                    if q = CHR ''*''
                    then map_option (Seq (Star (One (Lit e)))) (parseRegex rest')
                    else map_option (Seq (One (Lit e))) (parseRegex rest)
                | [] \<Rightarrow> map_option (Seq (One (Lit e))) (parseRegex rest))
             else None)
      else if isMetaChar c then None
      else
        (case cs of
           q # rest' \<Rightarrow>
             if q = CHR ''*''
             then map_option (Seq (Star (One (Lit c)))) (parseRegex rest')
             else map_option (Seq (One (Lit c))) (parseRegex cs)
         | [] \<Rightarrow> map_option (Seq (One (Lit c))) (parseRegex cs)))"

text \<open>The host on these sources. A source outside them is reported as an error: the
  host either rejects it or gives it a meaning that this model does not describe.\<close>

definition literalRegExp :: regExpHost where
  "literalRegExp source pageUrl =
     (case parseRegex source of
        None \<Rightarrow> Inl SyntaxError
      | Some r \<Rightarrow> Inr (regexTest r pageUrl))"

text \<open>The claim's words for a pattern: the whole URL conforms when \<^verbatim>\<open>*\<close> stands for
  any run of characters, \<^verbatim>\<open>?\<close> for exactly one character, and every other character
  for itself up to letter case.\<close>

fun claimedGlobMatch :: "string \<Rightarrow> string \<Rightarrow> bool" where
  "claimedGlobMatch [] u = (u = [])"
| "claimedGlobMatch (p # ps) u =
     (if p = CHR ''*'' then list_ex (claimedGlobMatch ps) (map (\<lambda>n. drop n u) [0 ..< Suc (length u)])
      else case u of
             [] \<Rightarrow> False
           | c # cs \<Rightarrow> (p = CHR ''?'' \<or> canonicalize p = canonicalize c) \<and> claimedGlobMatch ps cs)"

text \<open>The registry of the repository, with the fields the detector reads.\<close>

definition shippedRegistry :: "(string \<times> atsConfig) list" where
  "shippedRegistry =
     [(''Greenhouse'',
       \<lparr>name = ''Greenhouse'',
        urls = Some [''*://boards.greenhouse.io/*'', ''*://boards.eu.greenhouse.io/*'',
                     ''*://job-boards.greenhouse.io/*'', ''*://job-boards.eu.greenhouse.io/*''],
        urlsExcluded = Some [''*://boards.greenhouse.io/*/confirmation''],
        defaultMethod = Some ''react'', inputSelectors = []\<rparr>),
      (''Lever'',
       \<lparr>name = ''Lever'',
        urls = Some [''*://jobs.lever.co/*'', ''*://jobs.eu.lever.co/*''],
        urlsExcluded = None,
        defaultMethod = Some ''default'', inputSelectors = []\<rparr>),
      (''Workday'',
       \<lparr>name = ''Workday'',
        urls = Some [''*://*.myworkdayjobs.com/*'', ''*://*.myworkdaysite.com/*''],
        urlsExcluded = None,
        defaultMethod = Some ''react'', inputSelectors = []\<rparr>)]"

definition patternsOf :: "string list option \<Rightarrow> string list" where
  "patternsOf ps = (case ps of None \<Rightarrow> [] | Some patterns \<Rightarrow> patterns)"

text \<open>The claim's words for \<^verbatim>\<open>detect\<close>: a platform is accepted for a URL when the URL
  conforms to one of its inclusion patterns and to none of its exclusion patterns,
  under the pattern semantics that the claim gives (\<open>claimedGlobMatch\<close>).\<close>

definition claimedIncluded :: "string \<Rightarrow> atsConfig \<Rightarrow> bool" where
  "claimedIncluded pageUrl config =
     (\<exists>p \<in> set (patternsOf (urls config)). claimedGlobMatch p pageUrl)"

definition claimedExcluded :: "string \<Rightarrow> atsConfig \<Rightarrow> bool" where
  "claimedExcluded pageUrl config =
     (\<exists>p \<in> set (patternsOf (urlsExcluded config)). claimedGlobMatch p pageUrl)"

definition claimedAccepted :: "string \<Rightarrow> (string \<times> atsConfig) \<Rightarrow> bool" where
  "claimedAccepted pageUrl entry =
     (claimedIncluded pageUrl (snd entry) \<and> \<not> claimedExcluded pageUrl (snd entry))"

text \<open>What the detector itself tests, which is not the above: whether the host finds
  the translation of an inclusion pattern, or of an exclusion pattern, in the URL.\<close>

definition passesInclusionTest :: "regExpHost \<Rightarrow> string \<Rightarrow> atsConfig \<Rightarrow> bool" where
  "passesInclusionTest host pageUrl config =
     (\<exists>p \<in> set (patternsOf (urls config)). host (globToRegex p) pageUrl = Inr True)"

definition passesExclusionTest :: "regExpHost \<Rightarrow> string \<Rightarrow> atsConfig \<Rightarrow> bool" where
  "passesExclusionTest host pageUrl config =
     (\<exists>p \<in> set (patternsOf (urlsExcluded config)). host (globToRegex p) pageUrl = Inr True)"

definition selectedByTests :: "regExpHost \<Rightarrow> string \<Rightarrow> (string \<times> atsConfig) \<Rightarrow> bool" where
  "selectedByTests host pageUrl entry =
     (passesInclusionTest host pageUrl (snd entry) \<and> \<not> passesExclusionTest host pageUrl (snd entry))"

text \<open>The host accepts the translation of every pattern of the registry.\<close>

definition patternsAccepted :: "regExpHost \<Rightarrow> string \<Rightarrow> (string \<times> atsConfig) list \<Rightarrow> bool" where
  "patternsAccepted host pageUrl configs =
     (\<forall>entry \<in> set configs.
        \<forall>p \<in> set (patternsOf (urls (snd entry)) @ patternsOf (urlsExcluded (snd entry))).
          \<exists>b. host (globToRegex p) pageUrl = Inr b)"

section \<open>The page\<close>

text \<open>
  The page is outside the program. Its state is a value of a type \<open>'w\<close> on which the
  model assumes nothing; what the program can do with it is a record of functions:
  the two queries of \<^verbatim>\<open>XPathUtils.find\<close> (each gives a node, \<^verbatim>\<open>null\<close> or throws), the
  operations on an element (each gives the next state of the page and may throw),
  reading \<^verbatim>\<open>element.checked\<close>, what the page does by itself while the program sleeps,
  and the global table \<^verbatim>\<open>window.VALUE_TRANSFORMS\<close>. Elements are numbered.
\<close>

datatype domOp =
    Focus
  | Click
  | SetValue jsValue
  | ReactSetValue jsValue
  | Dispatch string
  | DispatchSimulatedInput

record 'w page =
  xpathFirst :: "'w \<Rightarrow> string \<Rightarrow> jsError + nat option"
  querySelector :: "'w \<Rightarrow> string \<Rightarrow> jsError + nat option"
  perform :: "domOp \<Rightarrow> nat \<Rightarrow> 'w \<Rightarrow> jsError option \<times> 'w"
  isChecked :: "'w \<Rightarrow> nat \<Rightarrow> bool option"
  elapse :: "int \<Rightarrow> 'w \<Rightarrow> 'w"
  valueTransforms :: "(string \<times> (string \<times> jsValue) list) list"

text \<open>
  The state the program runs in: the clock (\<^verbatim>\<open>Date.now()\<close>, in milliseconds), the
  page, and a log of the locators handed to \<^verbatim>\<open>findElement\<close> so far. The log is not
  in the code; it is there to state that a call looked nothing up. The clock moves
  only while the program sleeps, by the time asked for.
\<close>

record 'w browser =
  clock :: int
  queried :: "string option list"
  dom :: 'w

type_synonym ('a, 'w) run = "'w browser \<Rightarrow> (jsError + 'a) \<times> 'w browser"

definition delay :: "'w page \<Rightarrow> int \<Rightarrow> 'w browser \<Rightarrow> 'w browser" where
  "delay pg ms st = st\<lparr>clock := clock st + max ms 0, dom := elapse pg ms (dom st)\<rparr>"

section \<open>XPathUtils.find\<close>

text \<open>\<^verbatim>\<open>XPathUtils.find\<close> is \<open>findNode\<close> here: \<open>find\<close> is a function on lists.\<close>

definition isXPath :: "string \<Rightarrow> bool" where
  "isXPath selector =
     (startsWith selector ''.//'' \<or> startsWith selector ''//'' \<or> startsWith selector ''('')"

text \<open>\<open>None\<close> as a selector is \<^verbatim>\<open>undefined\<close>, on which \<^verbatim>\<open>selector.startsWith\<close> throws.
  \<^verbatim>\<open>findFirst\<close> catches what the XPath evaluation throws; \<^verbatim>\<open>querySelector\<close> is
  called unprotected.\<close>

definition findNode :: "'w page \<Rightarrow> 'w \<Rightarrow> string option \<Rightarrow> jsError + nat option" where
  "findNode pg w selector =
     (case selector of
        None \<Rightarrow> Inl TypeError
      | Some s \<Rightarrow>
          if isXPath s
          then (case xpathFirst pg w s of Inl e \<Rightarrow> Inr None | Inr r \<Rightarrow> Inr r)
          else querySelector pg w s)"

section \<open>FormFiller\<close>

definition findElement :: "'w page \<Rightarrow> string option \<Rightarrow> (nat option, 'w) run" where
  "findElement pg selector st =
     (findNode pg (dom st) selector, st\<lparr>queried := queried st @ [selector]\<rparr>)"

text \<open>A sequence of operations on one element; the first one that throws ends it.\<close>

fun performAll :: "'w page \<Rightarrow> nat \<Rightarrow> domOp list \<Rightarrow> (unit, 'w) run" where
  "performAll pg el [] st = (Inr (), st)"
| "performAll pg el (op # ops) st =
     (case perform pg op el (dom st) of
        (Some e, w) \<Rightarrow> (Inl e, st\<lparr>dom := w\<rparr>)
      | (None, w) \<Rightarrow> performAll pg el ops (st\<lparr>dom := w\<rparr>))"

definition returning :: "'a \<Rightarrow> (unit, 'w) run \<Rightarrow> ('a, 'w) run" where
  "returning x m st = (case m st of (Inl e, st') \<Rightarrow> (Inl e, st') | (Inr _, st') \<Rightarrow> (Inr x, st'))"

definition defaultOps :: "jsValue \<Rightarrow> bool \<Rightarrow> domOp list" where
  "defaultOps v triggerBlur =
     [Focus, SetValue (Str ''''), SetValue v, Dispatch ''input'', Dispatch ''change'']
     @ (if triggerBlur then [Dispatch ''blur''] else [])"

definition fillDefault :: "'w page \<Rightarrow> nat \<Rightarrow> jsValue \<Rightarrow> bool \<Rightarrow> (bool, 'w) run" where
  "fillDefault pg el v triggerBlur = returning True (performAll pg el (defaultOps v triggerBlur))"

definition fillReact :: "'w page \<Rightarrow> nat \<Rightarrow> jsValue \<Rightarrow> (bool, 'w) run" where
  "fillReact pg el v =
     returning True (performAll pg el [ReactSetValue v, DispatchSimulatedInput, Dispatch ''change''])"

definition fillClick :: "'w page \<Rightarrow> nat \<Rightarrow> (bool, 'w) run" where
  "fillClick pg el = returning True (performAll pg el [Click])"

definition fillCheckboxRadio :: "'w page \<Rightarrow> nat \<Rightarrow> jsValue \<Rightarrow> (bool, 'w) run" where
  "fillCheckboxRadio pg el v st =
     (let shouldCheck = (v = Bool True \<or> v = Str ''true'' \<or> v = Str ''1'' \<or> v = Str ''yes'')
      in if isChecked pg (dom st) el \<noteq> Some shouldCheck
         then returning True (performAll pg el [Click]) st
         else (Inr True, st))"

definition fillElement :: "'w page \<Rightarrow> nat \<Rightarrow> jsValue \<Rightarrow> string \<Rightarrow> (bool, 'w) run" where
  "fillElement pg el v how =
     (if how = ''react'' then fillReact pg el v
      else if how = ''default'' then fillDefault pg el v True
      else if how = ''defaultWithoutBlur'' then fillDefault pg el v False
      else if how = ''click'' then fillClick pg el
      else if how = ''selectCheckboxOrRadio'' then fillCheckboxRadio pg el v
      else fillDefault pg el v True)"

text \<open>\<^verbatim>\<open>a || b\<close> on optional strings: the empty string counts as absent.\<close>

definition orElse :: "string option \<Rightarrow> string option \<Rightarrow> string option" where
  "orElse a b = (case a of Some s \<Rightarrow> if s = [] then b else Some s | None \<Rightarrow> b)"

definition orDefault :: "string option \<Rightarrow> string \<Rightarrow> string" where
  "orDefault a d = (case a of Some s \<Rightarrow> if s = [] then d else s | None \<Rightarrow> d)"

definition fillSimpleSelector ::
    "'w page \<Rightarrow> string \<Rightarrow> jsValue \<Rightarrow> string option \<Rightarrow> (bool, 'w) run" where
  "fillSimpleSelector pg selector v how st =
     (case findElement pg (Some selector) st of
        (Inl e, st') \<Rightarrow> (Inl e, st')
      | (Inr None, st') \<Rightarrow> (Inr False, st')
      | (Inr (Some el), st') \<Rightarrow>
          fillElement pg el v (case how of None \<Rightarrow> ''default'' | Some m \<Rightarrow> m) st')"

subsection \<open>Values\<close>

definition truthy :: "jsValue \<Rightarrow> bool" where
  "truthy v =
     (case v of
        Undefined \<Rightarrow> False | Null \<Rightarrow> False | Str s \<Rightarrow> s \<noteq> [] | Num n \<Rightarrow> n \<noteq> 0
      | NaNValue \<Rightarrow> False | Bool b \<Rightarrow> b | Obj _ \<Rightarrow> True)"

function showNat :: "nat \<Rightarrow> string" where
  "showNat n = (if n < 10 then [char_of (48 + n)] else showNat (n div 10) @ [char_of (48 + n mod 10)])"
  by pat_completeness auto
termination
  by (relation "measure id") auto

text \<open>The property key a value is converted to. An object carries its string form.\<close>

definition propertyKey :: "jsValue \<Rightarrow> string" where
  "propertyKey v =
     (case v of
        Undefined \<Rightarrow> ''undefined'' | Null \<Rightarrow> ''null'' | Str s \<Rightarrow> s
      | Num n \<Rightarrow> (if n < 0 then ''-'' @ showNat (nat (- n)) else showNat (nat n))
      | NaNValue \<Rightarrow> ''NaN''
      | Bool b \<Rightarrow> (if b then ''true'' else ''false'') | Obj s \<Rightarrow> s)"

text \<open>The names that every object literal inherits from \<^verbatim>\<open>Object.prototype\<close>; reading
  one of them gives a function or an object.\<close>

definition inheritedNames :: "string list" where
  "inheritedNames =
     [''constructor'', ''__defineGetter__'', ''__defineSetter__'', ''hasOwnProperty'',
      ''__lookupGetter__'', ''__lookupSetter__'', ''isPrototypeOf'', ''propertyIsEnumerable'',
      ''toString'', ''valueOf'', ''__proto__'', ''toLocaleString'']"

text \<open>\<^verbatim>\<open>table[key]\<close> for an object literal \<open>table\<close>.\<close>

definition readProp :: "(string \<times> jsValue) list \<Rightarrow> string \<Rightarrow> jsValue" where
  "readProp table k =
     (case map_of table k of
        Some v \<Rightarrow> v
      | None \<Rightarrow> if k \<in> set inheritedNames then Obj k else Undefined)"

definition applyNamedTransform :: "'w page \<Rightarrow> jsValue \<Rightarrow> string \<Rightarrow> jsValue" where
  "applyNamedTransform pg v transformName =
     (case map_of (valueTransforms pg) transformName of
        None \<Rightarrow> v
      | Some table \<Rightarrow>
          let r = readProp table (propertyKey v) in if truthy r then r else v)"

definition transformValue :: "'w page \<Rightarrow> jsValue \<Rightarrow> valuesSpec \<Rightarrow> jsValue" where
  "transformValue pg v valueMap =
     (case valueMap of
        NamedTransform n \<Rightarrow> applyNamedTransform pg v n
      | ValueMap table \<Rightarrow>
          let r = readProp table (propertyKey v) in if truthy r then r else v)"

text \<open>The tailored profile: the value of each of its properties (\<open>Undefined\<close> for a
  property it does not have).\<close>

type_synonym tailoredData = "string \<Rightarrow> jsValue"

definition fieldMap :: "(string \<times> string) list" where
  "fieldMap =
     [(''first_name'', ''firstName''), (''last_name'', ''lastName''), (''full_name'', ''fullName''),
      (''email'', ''email''), (''phone'', ''phone''), (''phone_stripped'', ''phoneStripped''),
      (''location'', ''location''), (''linkedin'', ''linkedin''), (''github'', ''github''),
      (''portfolio'', ''portfolio''), (''summary'', ''summary''), (''city'', ''city''),
      (''state'', ''state''), (''country'', ''country''), (''postal_code'', ''postalCode''),
      (''address'', ''address''), (''authorized_to_work'', ''authorizedToWork''),
      (''requires_sponsorship'', ''requiresSponsorship''), (''gender'', ''gender''),
      (''ethnicity'', ''ethnicity''), (''veteran'', ''veteran''), (''disability'', ''disability'')]"

definition getValueForField :: "string \<Rightarrow> tailoredData \<Rightarrow> jsValue" where
  "getValueForField fieldName data =
     (case map_of fieldMap fieldName of
        Some property \<Rightarrow> data property
      | None \<Rightarrow> if fieldName \<in> set inheritedNames then Obj fieldName else Undefined)"

subsection \<open>Action sequences\<close>

text \<open>
  \<^verbatim>\<open>actionPath.replace(/%INPUTPATH%/g, inputPath)\<close>. In the replacement text \<^verbatim>\<open>$$\<close>
  stands for a dollar sign, \<^verbatim>\<open>$&\<close> for the matched text, \<^verbatim>\<open>$`\<close> and \<^verbatim>\<open>$'\<close> for the text
  before and after the match; the expression has no groups, so any other \<^verbatim>\<open>$\<close> stands
  for itself.
\<close>

fun expandReplacement :: "string \<Rightarrow> string \<Rightarrow> string \<Rightarrow> string \<Rightarrow> string" where
  "expandReplacement matched preceding following [] = []"
| "expandReplacement matched preceding following [c] = [c]"
| "expandReplacement matched preceding following (c # d # rest) =
     (if c = CHR ''$'' \<and> d = CHR ''$'' then CHR ''$'' # expandReplacement matched preceding following rest
      else if c = CHR ''$'' \<and> d = CHR ''&'' then matched @ expandReplacement matched preceding following rest
      else if c = CHR ''$'' \<and> d = CHR 0x60 then preceding @ expandReplacement matched preceding following rest
      else if c = CHR ''$'' \<and> d = CHR 0x27 then following @ expandReplacement matched preceding following rest
      else c # expandReplacement matched preceding following (d # rest))"

text \<open>\<open>skip\<close> counts the characters of a match still to pass over; \<open>preceding\<close> is the
  text already read.\<close>

fun replaceLoop :: "string \<Rightarrow> string \<Rightarrow> nat \<Rightarrow> string \<Rightarrow> string \<Rightarrow> string" where
  "replaceLoop pat rep skip preceding [] = []"
| "replaceLoop pat rep skip preceding (c # cs) =
     (if skip > 0 then replaceLoop pat rep (skip - 1) (preceding @ [c]) cs
      else if pat \<noteq> [] \<and> startsWith (c # cs) pat
      then expandReplacement pat preceding (drop (length pat) (c # cs)) rep
           @ replaceLoop pat rep (length pat - 1) (preceding @ [c]) cs
      else c # replaceLoop pat rep 0 (preceding @ [c]) cs)"

definition replacePlaceholder :: "string \<Rightarrow> string \<Rightarrow> string" where
  "replacePlaceholder xpath inputPath = replaceLoop ''%INPUTPATH%'' inputPath 0 [] xpath"

fun joinComma :: "string list \<Rightarrow> string" where
  "joinComma [] = []"
| "joinComma [s] = s"
| "joinComma (s # t # ss) = s @ '','' @ joinComma (t # ss)"

text \<open>\<^verbatim>\<open>config.path\<close> as the executor reads it: whether it is truthy, and its
  conversion to a string.\<close>

definition pathTruthy :: "pathSpec \<Rightarrow> bool" where
  "pathTruthy p = (case p of NoPath \<Rightarrow> False | OnePath s \<Rightarrow> s \<noteq> [] | ManyPaths _ \<Rightarrow> True)"

definition pathString :: "pathSpec \<Rightarrow> string" where
  "pathString p = (case p of NoPath \<Rightarrow> ''undefined'' | OnePath s \<Rightarrow> s | ManyPaths ss \<Rightarrow> joinComma ss)"

definition actionPathOf :: "complexConfig \<Rightarrow> action \<Rightarrow> string option" where
  "actionPathOf config a =
     (case apath a of
        None \<Rightarrow> None
      | Some p \<Rightarrow>
          if p \<noteq> [] \<and> pathTruthy (cpath config)
          then Some (replacePlaceholder p (pathString (cpath config)))
          else Some p)"

text \<open>\<^verbatim>\<open>executeAction\<close>: the operations of the step's method, then the key or mouse
  event it asks for (the options of the key event are left to the page).\<close>

definition methodOps :: "string option \<Rightarrow> jsValue \<Rightarrow> domOp list" where
  "methodOps m v =
     (if m = Some ''click'' then [Click]
      else if m = Some ''default'' then defaultOps v True
      else if m = Some ''defaultWithoutBlur'' then defaultOps v False
      else if m = Some ''clearValue'' then [SetValue (Str ''''), Dispatch ''input'']
      else if m = Some ''blur'' then [Dispatch ''blur'']
      else if m = Some ''focus'' then [Focus]
      else [])"

definition executeAction :: "'w page \<Rightarrow> nat \<Rightarrow> action \<Rightarrow> jsValue \<Rightarrow> (unit, 'w) run" where
  "executeAction pg el a v =
     performAll pg el
       (methodOps (amethod a) v
        @ (if aevent a = Some ''keydown'' then [Dispatch ''keydown''] else [])
        @ (if aevent a = Some ''mouseover'' then [Dispatch ''mouseover''] else []))"

text \<open>\<^verbatim>\<open>waitForElement\<close> for a single locator: look it up, sleep 100 ms, until it is found
  or the clock has moved \<open>timeout\<close> past \<open>start\<close>.\<close>

function waitLoop :: "'w page \<Rightarrow> string \<Rightarrow> int \<Rightarrow> int \<Rightarrow> (nat option, 'w) run" where
  "waitLoop pg selector timeout start st =
     (if clock st - start < timeout
      then (case findElement pg (Some selector) st of
              (Inl e, st') \<Rightarrow> (Inl e, st')
            | (Inr (Some el), st') \<Rightarrow> (Inr (Some el), st')
            | (Inr None, st') \<Rightarrow> waitLoop pg selector timeout start (delay pg 100 st'))
      else (Inr None, st))"
  by pat_completeness auto
termination
  by (relation "measure (\<lambda>(pg, selector, timeout, start, st). nat (start + timeout - clock st))")
     (auto simp: findElement_def delay_def)

definition waitForElement :: "'w page \<Rightarrow> string \<Rightarrow> int \<Rightarrow> (nat option, 'w) run" where
  "waitForElement pg selector timeout st = waitLoop pg selector timeout (clock st) st"

text \<open>The wait of a step takes place when \<^verbatim>\<open>action.time && actionPath\<close> holds.\<close>

definition waitsFor :: "complexConfig \<Rightarrow> action \<Rightarrow> (string \<times> int) option" where
  "waitsFor config a =
     (case (atime a, actionPathOf config a) of
        (Some t, Some p) \<Rightarrow> if t \<noteq> 0 \<and> p \<noteq> [] then Some (p, t) else None
      | _ \<Rightarrow> None)"

definition delayOf :: "'w page \<Rightarrow> action \<Rightarrow> 'w browser \<Rightarrow> 'w browser" where
  "delayOf pg a st = (case adelay a of None \<Rightarrow> st | Some ms \<Rightarrow> if ms = 0 then st else delay pg ms st)"

text \<open>
  One pass of the loop of \<^verbatim>\<open>executeActions\<close>; \<open>cur\<close> is \<^verbatim>\<open>currentElement\<close>. The pass
  either ends the function (\<open>Finished\<close>: with \<^verbatim>\<open>return false\<close>, or with an error thrown
  by the step's operation or by the wait), or the loop goes on with the next step
  (\<open>Continues\<close>, with the element that is then current).
\<close>

datatype 'w stepEnd = Finished "jsError + bool" "'w browser" | Continues nat "'w browser"

definition actionStep ::
    "'w page \<Rightarrow> complexConfig \<Rightarrow> jsValue \<Rightarrow> action \<Rightarrow> nat \<Rightarrow> 'w browser \<Rightarrow> 'w stepEnd" where
  "actionStep pg config v a cur st =
     (if amethod a = Some ''uploadResume'' then Continues cur st
      else case executeAction pg cur a v st of
             (Inl e, st1) \<Rightarrow> Finished (Inl e) st1
           | (Inr _, st1) \<Rightarrow>
               (case waitsFor config a of
                  None \<Rightarrow> Continues cur (delayOf pg a st1)
                | Some (p, t) \<Rightarrow>
                    (case waitForElement pg p t (delayOf pg a st1) of
                       (Inl e, st2) \<Rightarrow> Finished (Inl e) st2
                     | (Inr (Some newElement), st2) \<Rightarrow> Continues newElement st2
                     | (Inr None, st2) \<Rightarrow>
                         if allowFailure a then Continues cur st2
                         else Finished (Inr False) st2)))"

fun actionsLoop ::
    "'w page \<Rightarrow> complexConfig \<Rightarrow> jsValue \<Rightarrow> action list \<Rightarrow> nat \<Rightarrow> (bool, 'w) run" where
  "actionsLoop pg config v [] cur st = (Inr True, st)"
| "actionsLoop pg config v (a # rest) cur st =
     (case actionStep pg config v a cur st of
        Finished r st' \<Rightarrow> (r, st')
      | Continues cur' st' \<Rightarrow> actionsLoop pg config v rest cur' st')"

definition executeActions ::
    "'w page \<Rightarrow> nat \<Rightarrow> complexConfig \<Rightarrow> action list \<Rightarrow> jsValue \<Rightarrow> atsConfig \<Rightarrow> (bool, 'w) run" where
  "executeActions pg startElement config actions v ats = actionsLoop pg config v actions startElement"

subsection \<open>One candidate, one field, all fields\<close>

definition pathList :: "pathSpec \<Rightarrow> string option list" where
  "pathList p = (case p of NoPath \<Rightarrow> [None] | OnePath s \<Rightarrow> [Some s] | ManyPaths ss \<Rightarrow> map Some ss)"

fun firstElement :: "'w page \<Rightarrow> string option list \<Rightarrow> (nat option, 'w) run" where
  "firstElement pg [] st = (Inr None, st)"
| "firstElement pg (p # ps) st =
     (case findElement pg p st of
        (Inl e, st') \<Rightarrow> (Inl e, st')
      | (Inr (Some el), st') \<Rightarrow> (Inr (Some el), st')
      | (Inr None, st') \<Rightarrow> firstElement pg ps st')"

text \<open>The value is transformed only when \<^verbatim>\<open>config.values\<close> is a table: the name of a
  table is a string and fails the test \<^verbatim>\<open>typeof config.values === 'object'\<close>.\<close>

definition configValue :: "'w page \<Rightarrow> complexConfig \<Rightarrow> jsValue \<Rightarrow> jsValue" where
  "configValue pg config v =
     (case cvalues config of
        Some (ValueMap table) \<Rightarrow> transformValue pg v (ValueMap table)
      | _ \<Rightarrow> v)"

definition fillComplexSelector ::
    "'w page \<Rightarrow> complexConfig \<Rightarrow> jsValue \<Rightarrow> atsConfig \<Rightarrow> (bool, 'w) run" where
  "fillComplexSelector pg config v ats st =
     (case firstElement pg (pathList (cpath config)) st of
        (Inl e, st') \<Rightarrow> (Inl e, st')
      | (Inr None, st') \<Rightarrow> (Inr False, st')
      | (Inr (Some el), st') \<Rightarrow>
          (case cactions config of
             Some actions \<Rightarrow> executeActions pg el config actions (configValue pg config v) ats st'
           | None \<Rightarrow>
               fillElement pg el (configValue pg config v)
                 (orDefault (orElse (cmethod config) (defaultMethod ats)) ''default'') st'))"

definition tryFillWithSelector ::
    "'w page \<Rightarrow> string \<Rightarrow> selectorConfig \<Rightarrow> jsValue \<Rightarrow> atsConfig \<Rightarrow> (bool, 'w) run" where
  "tryFillWithSelector pg fieldName selectorConfig v ats st =
     (case selectorConfig of
        Simple s \<Rightarrow> fillSimpleSelector pg s v (defaultMethod ats) st
      | Complex config \<Rightarrow> fillComplexSelector pg config v ats st
      | NullConfig \<Rightarrow> (Inl TypeError, st)
      | OtherConfig \<Rightarrow> (Inr False, st))"

text \<open>The loop of \<^verbatim>\<open>fillField\<close> over the candidates: the \<^verbatim>\<open>try\<close> block catches every
  error of a candidate and the loop goes on with the next one.\<close>

fun tryCandidates ::
    "'w page \<Rightarrow> string \<Rightarrow> selectorConfig list \<Rightarrow> jsValue \<Rightarrow> atsConfig
     \<Rightarrow> 'w browser \<Rightarrow> bool \<times> 'w browser" where
  "tryCandidates pg fieldName [] v ats st = (False, st)"
| "tryCandidates pg fieldName (selectorConfig # configs) v ats st =
     (case tryFillWithSelector pg fieldName selectorConfig v ats st of
        (Inr True, st') \<Rightarrow> (True, st')
      | (Inr False, st') \<Rightarrow> tryCandidates pg fieldName configs v ats st'
      | (Inl e, st') \<Rightarrow> tryCandidates pg fieldName configs v ats st')"

definition configList :: "selectorSpec \<Rightarrow> selectorConfig list" where
  "configList selectorConfigs =
     (case selectorConfigs of ConfigList cs \<Rightarrow> cs | SingleConfig c \<Rightarrow> [c])"

text \<open>\<^verbatim>\<open>!value && value !== 0 && value !== false\<close>.\<close>

definition noValue :: "jsValue \<Rightarrow> bool" where
  "noValue v = (\<not> truthy v \<and> v \<noteq> Num 0 \<and> v \<noteq> Bool False)"

definition fillField ::
    "'w page \<Rightarrow> string \<Rightarrow> selectorSpec \<Rightarrow> tailoredData \<Rightarrow> atsConfig
     \<Rightarrow> 'w browser \<Rightarrow> bool \<times> 'w browser" where
  "fillField pg fieldName selectorConfigs data ats st =
     (if fieldName = ''resume'' then (False, st)
      else let v = getValueForField fieldName data
           in if noValue v then (False, st)
              else tryCandidates pg fieldName (configList selectorConfigs) v ats st)"

record formFillResult =
  filledCount :: nat
  skipCount :: nat

definition fillDelay :: int where
  "fillDelay = 100"

fun fillLoop ::
    "'w page \<Rightarrow> atsConfig \<Rightarrow> tailoredData \<Rightarrow> (string \<times> selectorSpec) list
     \<Rightarrow> formFillResult \<Rightarrow> 'w browser \<Rightarrow> formFillResult \<times> 'w browser" where
  "fillLoop pg ats data [] counts st = (counts, st)"
| "fillLoop pg ats data ((fieldName, selectorConfigs) # selectors) counts st =
     (case fillField pg fieldName selectorConfigs data ats st of
        (True, st') \<Rightarrow>
          fillLoop pg ats data selectors (counts\<lparr>filledCount := filledCount counts + 1\<rparr>)
            (delay pg fillDelay st')
      | (False, st') \<Rightarrow>
          fillLoop pg ats data selectors (counts\<lparr>skipCount := skipCount counts + 1\<rparr>)
            (delay pg fillDelay st'))"

text \<open>\<open>ats\<close> is the detected platform, a name and its configuration.\<close>

definition fill ::
    "'w page \<Rightarrow> (string \<times> atsConfig) \<Rightarrow> tailoredData \<Rightarrow> 'w browser
     \<Rightarrow> formFillResult \<times> 'w browser" where
  "fill pg ats data st =
     fillLoop pg (snd ats) data (inputSelectors (snd ats))
       \<lparr>filledCount = 0, skipCount = 0\<rparr> st"

subsection \<open>Notions used to state the properties of the form filler\<close>

text \<open>A locator resolves on a page when \<^verbatim>\<open>XPathUtils.find\<close> gives an element for it
  (not \<^verbatim>\<open>null\<close>, and not an error).\<close>

definition resolves :: "'w page \<Rightarrow> 'w \<Rightarrow> string option \<Rightarrow> bool" where
  "resolves pg w selector = (case findNode pg w selector of Inr (Some el) \<Rightarrow> True | _ \<Rightarrow> False)"

text \<open>The locators a candidate may look up.\<close>

definition candidateLocators :: "selectorConfig \<Rightarrow> string option list" where
  "candidateLocators c =
     (case c of Simple s \<Rightarrow> [Some s] | Complex config \<Rightarrow> pathList (cpath config) | _ \<Rightarrow> [])"

text \<open>The state after \<open>n\<close> unsuccessful polls of \<^verbatim>\<open>waitForElement\<close>: each poll logs the
  locator and sleeps 100 ms.\<close>

fun pollState :: "'w page \<Rightarrow> string \<Rightarrow> nat \<Rightarrow> 'w browser \<Rightarrow> 'w browser" where
  "pollState pg selector 0 st = st"
| "pollState pg selector (Suc n) st =
     pollState pg selector n (delay pg 100 (st\<lparr>queried := queried st @ [Some selector]\<rparr>))"



text \<open>Example data: a page on which no locator resolves and nothing throws, a profile
  with a first name only, and a step of the kind \<^verbatim>\<open>uploadResume\<close> with a wait.\<close>

definition blankPage :: "unit page" where
  "blankPage =
     \<lparr>xpathFirst = (\<lambda>w s. Inr None), querySelector = (\<lambda>w s. Inr None),
      perform = (\<lambda>op el w. (None, w)), isChecked = (\<lambda>w el. None),
      elapse = (\<lambda>ms w. w), valueTransforms = []\<rparr>"

definition startState :: "unit browser" where
  "startState = \<lparr>clock = 0, queried = [], dom = ()\<rparr>"

definition firstNameOnly :: tailoredData where
  "firstNameOnly property = (if property = ''firstName'' then Str ''Ada'' else Undefined)"

definition leverConfig :: atsConfig where
  "leverConfig = snd (shippedRegistry ! 1)"

definition waitingStep :: "string \<Rightarrow> bool \<Rightarrow> action" where
  "waitingStep how allow =
     \<lparr>amethod = Some how, apath = Some ''//ul[@role]//li'', adelay = None,
      atime = Some 300, allowFailure = allow, aevent = None\<rparr>"

definition dropdownConfig :: "action list \<Rightarrow> complexConfig" where
  "dropdownConfig actions =
     \<lparr>cpath = OnePath ''.//button[@data-country]'', cmethod = None, cvalues = None,
      cactions = Some actions\<rparr>"

text \<open>More example data: a page that records every operation, on which the country
  button and the work-authorisation box resolve and nothing else does; a profile with a
  country and the answer \<^verbatim>\<open>false\<close> for the work authorisation.\<close>

definition recordingPage :: "(nat \<times> domOp) list page" where
  "recordingPage =
     \<lparr>xpathFirst = (\<lambda>w s. if s = ''.//button[@data-country]'' then Inr (Some 1) else Inr None),
      querySelector = (\<lambda>w s. if s = ''#authorized'' then Inr (Some 2) else Inr None),
      perform = (\<lambda>op el w. (None, w @ [(el, op)])), isChecked = (\<lambda>w el. None),
      elapse = (\<lambda>ms w. w), valueTransforms = []\<rparr>"

definition recordingStart :: "(nat \<times> domOp) list browser" where
  "recordingStart = \<lparr>clock = 0, queried = [], dom = []\<rparr>"

definition exampleProfile :: tailoredData where
  "exampleProfile property =
     (if property = ''country'' then Str ''US''
      else if property = ''authorizedToWork'' then Bool False
      else Undefined)"

definition plainStep :: "string \<Rightarrow> action" where
  "plainStep how =
     \<lparr>amethod = Some how, apath = None, adelay = None, atime = None, allowFailure = False,
      aevent = None\<rparr>"

section \<open>Facts about strings and sorting\<close>

lemma startsWith_iff: "startsWith hay needle \<longleftrightarrow> (\<exists>rest. hay = needle @ rest)"
  by (induction hay needle rule: startsWith.induct) auto

lemma includes_iff: "includesStr hay needle \<longleftrightarrow> (\<exists>before after. hay = before @ needle @ after)"
proof (induction hay)
  case Nil
  then show ?case by auto
next
  case (Cons c cs)
  show ?case
  proof
    assume "includesStr (c # cs) needle"
    then consider "startsWith (c # cs) needle" | "includesStr cs needle" by auto
    then show "\<exists>before after. c # cs = before @ needle @ after"
    proof cases
      case 1
      then obtain rest where "c # cs = needle @ rest" by (auto simp: startsWith_iff)
      then have "c # cs = [] @ needle @ rest" by simp
      then show ?thesis by blast
    next
      case 2
      then obtain b a where "cs = b @ needle @ a" using Cons.IH by auto
      then have "c # cs = (c # b) @ needle @ a" by simp
      then show ?thesis by blast
    qed
  next
    assume "\<exists>before after. c # cs = before @ needle @ after"
    then obtain b a where ba: "c # cs = b @ needle @ a" by auto
    show "includesStr (c # cs) needle"
    proof (cases b)
      case Nil
      with ba have "startsWith (c # cs) needle" by (auto simp: startsWith_iff)
      then show ?thesis by simp
    next
      case (Cons b0 bs)
      with ba have "cs = bs @ needle @ a" by simp
      then have "includesStr cs needle" using Cons.IH by auto
      then show ?thesis by simp
    qed
  qed
qed

lemma map_eq_split:
  "map f xs = b @ m @ a \<Longrightarrow> \<exists>b' m' a'. xs = b' @ m' @ a' \<and> map f m' = m"
  by (metis map_eq_append_conv)

lemma skillScore_claimed:
  "skillScore (toLowerCase desc) skill = claimedSkillScore desc skill"
proof -
  have "includesStr (toLowerCase desc) (toLowerCase skill) \<longleftrightarrow> occursIgnoringCase skill desc"
  proof
    assume "includesStr (toLowerCase desc) (toLowerCase skill)"
    then obtain b a where "map toLowerChar desc = b @ toLowerCase skill @ a"
      by (auto simp: includes_iff toLowerCase_def)
    from map_eq_split [OF this] show "occursIgnoringCase skill desc"
      by (auto simp: occursIgnoringCase_def toLowerCase_def)
  next
    assume "occursIgnoringCase skill desc"
    then obtain b m a where "desc = b @ m @ a" "toLowerCase m = toLowerCase skill"
      by (auto simp: occursIgnoringCase_def)
    then have "toLowerCase desc = toLowerCase b @ toLowerCase skill @ toLowerCase a"
      by (simp add: toLowerCase_def)
    then show "includesStr (toLowerCase desc) (toLowerCase skill)"
      unfolding includes_iff by blast
  qed
  then show ?thesis by (simp add: skillScore_def claimedSkillScore_def)
qed

lemma mset_insertBy: "mset (insertBy cmp x xs) = add_mset x (mset xs)"
  by (induction xs) auto

lemma mset_sortBy: "mset (sortBy cmp xs) = mset xs"
  by (induction xs) (auto simp: mset_insertBy)

lemma set_insertBy: "set (insertBy cmp x xs) = insert x (set xs)"
  by (induction xs) auto

lemma set_sortBy: "set (sortBy cmp xs) = set xs"
  by (induction xs) (auto simp: set_insertBy)

lemma length_sortBy: "length (sortBy cmp xs) = length xs"
  by (metis mset_sortBy size_mset)


lemma filter_insertBy:
  assumes "\<And>y. y \<in> set ys \<Longrightarrow> P x \<Longrightarrow> P y \<Longrightarrow> cmp x y \<le> 0"
  shows "filter P (insertBy cmp x ys) = (if P x then x # filter P ys else filter P ys)"
  using assms by (induction ys) auto

lemma filter_sortBy:
  assumes "\<And>x y. x \<in> set xs \<Longrightarrow> y \<in> set xs \<Longrightarrow> P x \<Longrightarrow> P y \<Longrightarrow> cmp x y \<le> 0"
  shows "filter P (sortBy cmp xs) = filter P xs"
  using assms
proof (induction xs)
  case Nil
  then show ?case by simp
next
  case (Cons x xs)
  have "filter P (insertBy cmp x (sortBy cmp xs))
        = (if P x then x # filter P (sortBy cmp xs) else filter P (sortBy cmp xs))"
    by (rule filter_insertBy) (use Cons.prems in \<open>auto simp: set_sortBy\<close>)
  moreover have "filter P (sortBy cmp xs) = filter P xs"
    by (rule Cons.IH) (use Cons.prems in auto)
  ultimately show ?case by simp
qed

lemma sorted_insertBy:
  assumes tr: "\<And>a b c. a \<in> insert x (set ys) \<Longrightarrow> b \<in> insert x (set ys) \<Longrightarrow> c \<in> insert x (set ys)
                 \<Longrightarrow> cmp a b \<le> 0 \<Longrightarrow> cmp b c \<le> 0 \<Longrightarrow> cmp a c \<le> 0"
    and tot: "\<And>a b. a \<in> insert x (set ys) \<Longrightarrow> b \<in> insert x (set ys) \<Longrightarrow> \<not> cmp a b \<le> 0 \<Longrightarrow> cmp b a \<le> 0"
    and srt: "sorted_wrt (\<lambda>a b. cmp a b \<le> 0) ys"
  shows "sorted_wrt (\<lambda>a b. cmp a b \<le> 0) (insertBy cmp x ys)"
  using assms
proof (induction ys)
  case Nil
  show ?case by simp
next
  case (Cons y ys)
  have y_le: "\<forall>z \<in> set ys. cmp y z \<le> 0" and srt_ys: "sorted_wrt (\<lambda>a b. cmp a b \<le> 0) ys"
    using Cons.prems(3) by simp_all
  show ?case
  proof (cases "cmp x y \<le> 0")
    case True
    have "cmp x z \<le> 0" if "z \<in> set ys" for z
    proof (rule Cons.prems(1) [of x y z])
      show "cmp y z \<le> 0" using y_le that by blast
    qed (use True that in simp_all)
    then have "\<forall>z \<in> set (y # ys). cmp x z \<le> 0" using True by simp
    then have "sorted_wrt (\<lambda>a b. cmp a b \<le> 0) (x # y # ys)"
      using Cons.prems(3) by (simp del: sorted_wrt.simps(2) add: sorted_wrt.simps(2) [of _ x])
    with True show ?thesis by simp
  next
    case False
    have yx: "cmp y x \<le> 0"
      by (rule Cons.prems(2) [of x y]) (use False in simp_all)
    have "sorted_wrt (\<lambda>a b. cmp a b \<le> 0) (insertBy cmp x ys)"
    proof (rule Cons.IH)
      fix a b c
      assume "a \<in> insert x (set ys)" "b \<in> insert x (set ys)" "c \<in> insert x (set ys)"
        and "cmp a b \<le> 0" "cmp b c \<le> 0"
      then show "cmp a c \<le> 0" by (intro Cons.prems(1) [of a b c]) auto
    next
      fix a b
      assume "a \<in> insert x (set ys)" "b \<in> insert x (set ys)" and "\<not> cmp a b \<le> 0"
      then show "cmp b a \<le> 0" by (intro Cons.prems(2) [of a b]) auto
    next
      show "sorted_wrt (\<lambda>a b. cmp a b \<le> 0) ys" by (rule srt_ys)
    qed
    moreover have "\<forall>z \<in> set (insertBy cmp x ys). cmp y z \<le> 0"
      using yx y_le by (simp add: set_insertBy)
    ultimately have "sorted_wrt (\<lambda>a b. cmp a b \<le> 0) (y # insertBy cmp x ys)" by simp
    with False show ?thesis by simp
  qed
qed

lemma sorted_sortBy:
  assumes tr: "\<And>a b c. a \<in> set xs \<Longrightarrow> b \<in> set xs \<Longrightarrow> c \<in> set xs
                 \<Longrightarrow> cmp a b \<le> 0 \<Longrightarrow> cmp b c \<le> 0 \<Longrightarrow> cmp a c \<le> 0"
    and tot: "\<And>a b. a \<in> set xs \<Longrightarrow> b \<in> set xs \<Longrightarrow> \<not> cmp a b \<le> 0 \<Longrightarrow> cmp b a \<le> 0"
  shows "sorted_wrt (\<lambda>a b. cmp a b \<le> 0) (sortBy cmp xs)"
  using assms
proof (induction xs)
  case Nil
  show ?case by simp
next
  case (Cons x xs)
  have ih: "sorted_wrt (\<lambda>a b. cmp a b \<le> 0) (sortBy cmp xs)"
  proof (rule Cons.IH)
    fix a b c
    assume "a \<in> set xs" "b \<in> set xs" "c \<in> set xs" and "cmp a b \<le> 0" "cmp b c \<le> 0"
    then show "cmp a c \<le> 0" by (intro Cons.prems(1) [of a b c]) auto
  next
    fix a b
    assume "a \<in> set xs" "b \<in> set xs" and "\<not> cmp a b \<le> 0"
    then show "cmp b a \<le> 0" by (intro Cons.prems(2) [of a b]) auto
  qed
  have "sorted_wrt (\<lambda>a b. cmp a b \<le> 0) (insertBy cmp x (sortBy cmp xs))"
  proof (rule sorted_insertBy [OF _ _ ih])
    fix a b c
    assume "a \<in> insert x (set (sortBy cmp xs))" "b \<in> insert x (set (sortBy cmp xs))"
      "c \<in> insert x (set (sortBy cmp xs))" and "cmp a b \<le> 0" "cmp b c \<le> 0"
    then show "cmp a c \<le> 0" by (intro Cons.prems(1) [of a b c]) (auto simp: set_sortBy)
  next
    fix a b
    assume "a \<in> insert x (set (sortBy cmp xs))" "b \<in> insert x (set (sortBy cmp xs))"
      and "\<not> cmp a b \<le> 0"
    then show "cmp b a \<le> 0" by (intro Cons.prems(2) [of a b]) (auto simp: set_sortBy)
  qed
  then show ?case by simp
qed

subsection \<open>prioritizeSkills\<close>

lemma prioritizeSkills_sorted_part:
  assumes "skills \<noteq> []" "jobPosting.description j \<noteq> []"
  shows "prioritizeSkills skills (Some j) =
           map fst (sortBy skillCompare
             (map (\<lambda>skill. (skill, skillScore (toLowerCase (jobPosting.description j)) skill)) skills))"
  using assms by (simp add: prioritizeSkills_def)

lemma skills_scored_sorted:
  fixes k :: "string \<Rightarrow> int"
  shows "sorted_wrt (\<lambda>a b. k b \<le> k a) (map fst (sortBy skillCompare (map (\<lambda>s. (s, k s)) skills)))"
proof -
  let ?scored = "map (\<lambda>s. (s, k s)) skills"
  have srt: "sorted_wrt (\<lambda>a b. skillCompare a b \<le> 0) (sortBy skillCompare ?scored)"
    by (rule sorted_sortBy) (auto simp: skillCompare_def)
  have snd_k: "snd p = k (fst p)" if "p \<in> set (sortBy skillCompare ?scored)" for p
    using that by (auto simp: set_sortBy)
  have "sorted_wrt (\<lambda>a b. k (fst b) \<le> k (fst a)) (sortBy skillCompare ?scored)"
    by (rule sorted_wrt_mono_rel [OF _ srt]) (auto simp: skillCompare_def snd_k)
  then show ?thesis by (simp add: sorted_wrt_map)
qed

lemma map_fst_filter_snd:
  "\<forall>p \<in> set ps. snd p = k (fst p) \<Longrightarrow>
   map fst (filter (\<lambda>p. snd p = v) ps) = filter (\<lambda>s. k s = v) (map fst ps)"
  by (induction ps) auto

lemma skills_scored_stable:
  fixes k :: "string \<Rightarrow> int"
  shows "filter (\<lambda>s. k s = v) (map fst (sortBy skillCompare (map (\<lambda>s. (s, k s)) skills)))
         = filter (\<lambda>s. k s = v) skills"
proof -
  let ?scored = "map (\<lambda>s. (s, k s)) skills"
  have keyed: "\<forall>p \<in> set (sortBy skillCompare ?scored). snd p = k (fst p)"
    by (auto simp: set_sortBy)
  have keyed0: "\<forall>p \<in> set ?scored. snd p = k (fst p)"
    by auto
  have "filter (\<lambda>p. snd p = v) (sortBy skillCompare ?scored) = filter (\<lambda>p. snd p = v) ?scored"
    by (rule filter_sortBy) (auto simp: skillCompare_def)
  then have "map fst (filter (\<lambda>p. snd p = v) (sortBy skillCompare ?scored))
             = map fst (filter (\<lambda>p. snd p = v) ?scored)" by simp
  then have "filter (\<lambda>s. k s = v) (map fst (sortBy skillCompare ?scored))
             = filter (\<lambda>s. k s = v) (map fst ?scored)"
    by (simp only: map_fst_filter_snd [OF keyed] map_fst_filter_snd [OF keyed0])
  moreover have "map fst ?scored = skills" by (simp add: comp_def)
  ultimately show ?thesis by simp
qed

subsection \<open>prioritizeSkills, continued\<close>

lemma mset_scored: "mset (map fst (sortBy cmp (map (\<lambda>s. (s, k s)) skills))) = mset skills"
proof -
  have "mset (map fst (sortBy cmp (map (\<lambda>s. (s, k s)) skills)))
        = mset (map fst (map (\<lambda>s. (s, k s)) skills))"
    by (metis mset_map mset_sortBy)
  also have "map fst (map (\<lambda>s. (s, k s)) skills) = skills"
    by (simp add: comp_def)
  finally show ?thesis .
qed

lemma prioritizeSkills_passthrough:
  assumes "noDescription job"
  shows "prioritizeSkills skills job = skills"
proof (cases job)
  case None
  then show ?thesis by (simp add: prioritizeSkills_def)
next
  case (Some j)
  with assms have "jobPosting.description j = []" by (simp add: noDescription_def)
  with Some show ?thesis by (simp add: prioritizeSkills_def)
qed

lemma prioritizeSkills_mset: "mset (prioritizeSkills skills job) = mset skills"
proof (cases "noDescription job")
  case True
  then show ?thesis by (simp add: prioritizeSkills_passthrough)
next
  case False
  then obtain j where j: "job = Some j" "jobPosting.description j \<noteq> []"
    by (cases job) (simp_all add: noDescription_def)
  show ?thesis
  proof (cases "skills = []")
    case True
    then show ?thesis by (simp add: prioritizeSkills_def)
  next
    case False
    show ?thesis unfolding j(1) prioritizeSkills_sorted_part [OF False j(2)] by (rule mset_scored)
  qed
qed

lemma prioritizeSkills_described:
  assumes "jobPosting.description j \<noteq> []"
  shows "prioritizeSkills skills (Some j) =
           map fst (sortBy skillCompare
             (map (\<lambda>skill. (skill, claimedSkillScore (jobPosting.description j) skill)) skills))"
proof (cases "skills = []")
  case True
  then show ?thesis by (simp add: prioritizeSkills_def)
next
  case False
  show ?thesis
    unfolding prioritizeSkills_sorted_part [OF False assms] skillScore_claimed ..
qed

text \<open>
  C6, as the code has it. For every skill list and every posting the result is a
  permutation of the input: same multiset, same length. When the posting has a
  non-empty description, each skill's score is 10 if it occurs in the description
  ignoring letter case and 0 otherwise, the result is in descending score order, and
  skills of equal score keep their original relative order. When there is no posting
  or its description is empty, the list is returned as it is.
\<close>

theorem prioritizeSkills_permutation_stable:
  "mset (prioritizeSkills skills job) = mset skills
   \<and> length (prioritizeSkills skills job) = length skills
   \<and> (noDescription job \<longrightarrow> prioritizeSkills skills job = skills)
   \<and> (\<forall>j. job = Some j \<and> jobPosting.description j \<noteq> [] \<longrightarrow>
         (\<forall>s. skillScore (toLowerCase (jobPosting.description j)) s
                = claimedSkillScore (jobPosting.description j) s)
         \<and> sorted_wrt (\<lambda>a b. claimedSkillScore (jobPosting.description j) b
                              \<le> claimedSkillScore (jobPosting.description j) a)
              (prioritizeSkills skills job)
         \<and> (\<forall>v. filter (\<lambda>s. claimedSkillScore (jobPosting.description j) s = v)
                    (prioritizeSkills skills job)
                = filter (\<lambda>s. claimedSkillScore (jobPosting.description j) s = v) skills))"
proof (intro conjI allI impI)
  show "mset (prioritizeSkills skills job) = mset skills"
    by (rule prioritizeSkills_mset)
  then show "length (prioritizeSkills skills job) = length skills"
    by (metis size_mset)
next
  assume "noDescription job"
  then show "prioritizeSkills skills job = skills" by (rule prioritizeSkills_passthrough)
next
  fix j s
  show "skillScore (toLowerCase (jobPosting.description j)) s
        = claimedSkillScore (jobPosting.description j) s"
    by (rule skillScore_claimed)
next
  fix j
  assume "job = Some j \<and> jobPosting.description j \<noteq> []"
  then show "sorted_wrt (\<lambda>a b. claimedSkillScore (jobPosting.description j) b
                              \<le> claimedSkillScore (jobPosting.description j) a)
              (prioritizeSkills skills job)"
    by (simp add: prioritizeSkills_described skills_scored_sorted)
next
  fix j v
  assume "job = Some j \<and> jobPosting.description j \<noteq> []"
  then show "filter (\<lambda>s. claimedSkillScore (jobPosting.description j) s = v)
                    (prioritizeSkills skills job)
                = filter (\<lambda>s. claimedSkillScore (jobPosting.description j) s = v) skills"
    by (simp add: prioritizeSkills_described skills_scored_stable)
qed

lemma example_skills_result:
  "prioritizeSkills [''SQL'', ''Go'', ''Rust'', ''Kubernetes'']
     (Some (examplePosting ''We need 5+ years of Go and Kubernetes experience''))
   = [''Go'', ''Kubernetes'', ''SQL'', ''Rust'']"
  by code_simp

theorem prioritizeSkills_permutation_stable_witness:
  "jobPosting.description (examplePosting ''We need 5+ years of Go and Kubernetes experience'') \<noteq> []
   \<and> prioritizeSkills [''SQL'', ''Go'', ''Rust'', ''Kubernetes'']
        (Some (examplePosting ''We need 5+ years of Go and Kubernetes experience''))
      = [''Go'', ''Kubernetes'', ''SQL'', ''Rust'']
   \<and> mset [''Go'', ''Kubernetes'', ''SQL'', ''Rust''] = mset [''SQL'', ''Go'', ''Rust'', ''Kubernetes'']
   \<and> sorted_wrt (\<lambda>a b. claimedSkillScore ''We need 5+ years of Go and Kubernetes experience'' b
                        \<le> claimedSkillScore ''We need 5+ years of Go and Kubernetes experience'' a)
        [''Go'', ''Kubernetes'', ''SQL'', ''Rust'']"
proof -
  let ?j = "examplePosting ''We need 5+ years of Go and Kubernetes experience''"
  have d: "jobPosting.description ?j = ''We need 5+ years of Go and Kubernetes experience''"
    by (simp add: examplePosting_def)
  have ne: "jobPosting.description ?j \<noteq> []" unfolding d by simp
  from prioritizeSkills_permutation_stable
         [of "[''SQL'', ''Go'', ''Rust'', ''Kubernetes'']" "Some ?j"] ne
  have "mset (prioritizeSkills [''SQL'', ''Go'', ''Rust'', ''Kubernetes''] (Some ?j))
          = mset [''SQL'', ''Go'', ''Rust'', ''Kubernetes'']"
    and "sorted_wrt (\<lambda>a b. claimedSkillScore (jobPosting.description ?j) b
                              \<le> claimedSkillScore (jobPosting.description ?j) a)
           (prioritizeSkills [''SQL'', ''Go'', ''Rust'', ''Kubernetes''] (Some ?j))"
    by blast+
  then show ?thesis unfolding example_skills_result d using ne d example_skills_result by simp
qed

text \<open>C6 as stated fails for a posting with an empty description: the empty skill
  is a substring of the empty description (score 10), the skill \<open>x\<close> is not (score 0),
  and the list is returned unchanged, with the lower score first.\<close>

theorem prioritizeSkills_empty_description_counterexample:
  "\<not> sorted_wrt (\<lambda>a b. claimedSkillScore (jobPosting.description (examplePosting '''')) b
                         \<le> claimedSkillScore (jobPosting.description (examplePosting '''')) a)
        (prioritizeSkills [''x'', ''''] (Some (examplePosting '''')))"
proof -
  have d: "jobPosting.description (examplePosting '''') = []"
    by (simp add: examplePosting_def)
  have out: "prioritizeSkills [''x'', ''''] (Some (examplePosting '''')) = [''x'', '''']"
    by (simp add: prioritizeSkills_def d)
  have "claimedSkillScore [] ''x'' = 0"
    by (simp add: claimedSkillScore_def occursIgnoringCase_def toLowerCase_def)
  moreover have "claimedSkillScore [] [] = 10"
    by (simp add: claimedSkillScore_def occursIgnoringCase_def toLowerCase_def)
  ultimately show ?thesis unfolding out d by simp
qed

subsection \<open>extractKeywords\<close>

lemma keys_setProp: "fst ` set (setProp w v ps) = insert w (fst ` set ps)"
proof (induction ps)
  case Nil
  show ?case by simp
next
  case (Cons p ps)
  obtain k u where p: "p = (k, u)" by (cases p)
  show ?case
  proof (cases "k = w")
    case True
    then show ?thesis by (simp add: p)
  next
    case False
    then show ?thesis using Cons.IH by (simp add: p insert_commute)
  qed
qed

lemma keys_bump: "fst ` set (bump freq w) \<subseteq> insert w (fst ` set freq)"
  by (auto simp: bump_def keys_setProp split: option.splits freqValue.splits if_splits)

lemma keys_countWords:
  "fst ` set (countWords freq ws) \<subseteq> fst ` set freq \<union> {w \<in> set ws. length w > 3}"
proof (induction ws arbitrary: freq)
  case Nil
  show ?case by simp
next
  case (Cons w ws)
  show ?case
  proof (cases "length w > 3")
    case True
    have "fst ` set (countWords (bump freq w) ws)
          \<subseteq> fst ` set (bump freq w) \<union> {w \<in> set ws. length w > 3}"
      by (rule Cons.IH)
    also have "\<dots> \<subseteq> insert w (fst ` set freq) \<union> {w \<in> set ws. length w > 3}"
      using keys_bump [of freq w] by blast
    finally show ?thesis using True by auto
  next
    case False
    then show ?thesis using Cons.IH [of freq] by auto
  qed
qed

lemma set_objectEntries: "set (objectEntries freq) = set freq"
  by (auto simp: objectEntries_def)

lemma extractKeywords_subset:
  "set (extractKeywords d) \<subseteq> {w. length w > 3 \<and> w \<notin> stopWords}"
proof (cases "d = []")
  case True
  then show ?thesis by (simp add: extractKeywords_def)
next
  case False
  let ?freq = "countWords [] (splitNonWord (toLowerCase d))"
  let ?kept = "filter (\<lambda>p. fst p \<notin> stopWords) (objectEntries ?freq)"
  have "set (extractKeywords d) = fst ` set (take 50 (sortBy freqCompare ?kept))"
    using False by (simp add: extractKeywords_def Let_def)
  also have "\<dots> \<subseteq> fst ` set (sortBy freqCompare ?kept)"
    by (intro image_mono set_take_subset)
  also have "\<dots> = fst ` set ?kept" by (simp only: set_sortBy)
  also have "\<dots> \<subseteq> {w. length w > 3 \<and> w \<notin> stopWords}"
  proof
    fix w
    assume "w \<in> fst ` set ?kept"
    then have "w \<in> fst ` set ?freq" and "w \<notin> stopWords"
      by (auto simp: set_objectEntries)
    moreover have "fst ` set ?freq \<subseteq> {w \<in> set (splitNonWord (toLowerCase d)). length w > 3}"
      using keys_countWords [of "[]" "splitNonWord (toLowerCase d)"] by simp
    ultimately show "w \<in> {w. length w > 3 \<and> w \<notin> stopWords}" by blast
  qed
  finally show ?thesis .
qed

lemma extractKeywords_length: "length (extractKeywords d) \<le> 50"
  by (simp add: extractKeywords_def Let_def)

text \<open>
  C7. The keyword list is a function of the text alone (the code reads nothing else),
  so equal texts give equal lists; every keyword is longer than 3 characters and is not
  a stop word; there are at most 50 keywords.
\<close>

theorem extractKeywords_bounds:
  "(d = d' \<longrightarrow> extractKeywords d = extractKeywords d')
   \<and> (\<forall>k \<in> set (extractKeywords d). length k > 3 \<and> k \<notin> stopWords)
   \<and> length (extractKeywords d) \<le> 50"
  using extractKeywords_subset [of d] extractKeywords_length [of d] by auto

lemma example_keywords:
  "extractKeywords ''We need 5+ years of Go and Kubernetes experience''
   = [''need'', ''years'', ''kubernetes'', ''experience'']"
  by code_simp

theorem extractKeywords_bounds_witness:
  "''kubernetes'' \<in> set (extractKeywords ''We need 5+ years of Go and Kubernetes experience'')
   \<and> length ''kubernetes'' > 3 \<and> ''kubernetes'' \<notin> stopWords
   \<and> length (extractKeywords ''We need 5+ years of Go and Kubernetes experience'') \<le> 50"
proof -
  have "''kubernetes'' \<in> set (extractKeywords ''We need 5+ years of Go and Kubernetes experience'')"
    unfolding example_keywords by simp
  then show ?thesis
    using extractKeywords_bounds [of "''We need 5+ years of Go and Kubernetes experience''"
            "''We need 5+ years of Go and Kubernetes experience''"]
    by blast
qed

subsection \<open>prioritizeExperience\<close>

lemma claimedPairOrder_iff: "claimedPairOrder a b \<longleftrightarrow> experienceCompare a b \<le> 0"
  by (auto simp: claimedPairOrder_def experienceCompare_def Let_def)

lemma experienceCompare_total: "\<not> experienceCompare a b \<le> 0 \<Longrightarrow> experienceCompare b a \<le> 0"
  by (auto simp: experienceCompare_def Let_def split: if_splits)

lemma prioritizeExperience_scored:
  assumes "exps \<noteq> []" "jobPosting.description j \<noteq> []"
  shows "prioritizeExperience kws exps (Some j)
         = Scored (sortBy experienceCompare (map (withScore kws) exps))"
  using assms by (simp add: prioritizeExperience_def noDescription_def)

text \<open>
  C3, as the code has it. The comparison function is not transitive in general, so
  the claim is proved for the inputs on which it is: for every non-empty experience
  list and every posting with a non-empty description such that the claimed pair order
  is transitive over the scored entries, the result is the scored entries rearranged,
  and every pair of the result is in the claimed order (more than 5 apart: the higher
  score first; at most 5 apart: the later start year not second).
\<close>

theorem prioritizeExperience_pair_order:
  assumes "exps \<noteq> []" and "job = Some j" and "jobPosting.description j \<noteq> []"
    and "\<forall>a \<in> set (map (withScore kws) exps). \<forall>b \<in> set (map (withScore kws) exps).
           \<forall>c \<in> set (map (withScore kws) exps).
             claimedPairOrder a b \<and> claimedPairOrder b c \<longrightarrow> claimedPairOrder a c"
  shows "\<exists>out. prioritizeExperience kws exps job = Scored out
               \<and> mset out = mset (map (withScore kws) exps)
               \<and> sorted_wrt claimedPairOrder out"
proof -
  let ?scored = "map (withScore kws) exps"
  have "sorted_wrt (\<lambda>a b. experienceCompare a b \<le> 0) (sortBy experienceCompare ?scored)"
  proof (rule sorted_sortBy)
    fix a b c
    assume "a \<in> set ?scored" "b \<in> set ?scored" "c \<in> set ?scored"
      and "experienceCompare a b \<le> 0" "experienceCompare b c \<le> 0"
    then show "experienceCompare a c \<le> 0"
      using assms(4) unfolding claimedPairOrder_iff by blast
  next
    fix a b
    assume "\<not> experienceCompare a b \<le> 0"
    then show "experienceCompare b a \<le> 0" by (rule experienceCompare_total)
  qed
  then have "sorted_wrt claimedPairOrder (sortBy experienceCompare ?scored)"
    by (simp add: claimedPairOrder_iff [abs_def])
  moreover have "mset (sortBy experienceCompare ?scored) = mset ?scored"
    by (rule mset_sortBy)
  ultimately show ?thesis
    unfolding assms(2) prioritizeExperience_scored [OF assms(1) assms(3)] by blast
qed

lemma example_pair_scored:
  "map (withScore (extractKeywords eightWords))
     [exampleEntry ''Clerk'' '''' 2020, exampleEntry ''Lead'' eightWords 2000]
   = [scoredEntry ''Clerk'' '''' 2020 0, scoredEntry ''Lead'' eightWords 2000 8]"
  by code_simp

lemma example_pair_result:
  "prioritizeExperience (extractKeywords eightWords)
     [exampleEntry ''Clerk'' '''' 2020, exampleEntry ''Lead'' eightWords 2000]
     (Some (examplePosting eightWords))
   = Scored [scoredEntry ''Lead'' eightWords 2000 8, scoredEntry ''Clerk'' '''' 2020 0]"
  by code_simp

theorem prioritizeExperience_pair_order_witness:
  "[exampleEntry ''Clerk'' '''' 2020, exampleEntry ''Lead'' eightWords 2000] \<noteq> []
   \<and> jobPosting.description (examplePosting eightWords) \<noteq> []
   \<and> prioritizeExperience (extractKeywords eightWords)
        [exampleEntry ''Clerk'' '''' 2020, exampleEntry ''Lead'' eightWords 2000]
        (Some (examplePosting eightWords))
      = Scored [scoredEntry ''Lead'' eightWords 2000 8, scoredEntry ''Clerk'' '''' 2020 0]
   \<and> sorted_wrt claimedPairOrder
        [scoredEntry ''Lead'' eightWords 2000 8, scoredEntry ''Clerk'' '''' 2020 0]"
proof -
  let ?exps = "[exampleEntry ''Clerk'' '''' 2020, exampleEntry ''Lead'' eightWords 2000]"
  let ?kws = "extractKeywords eightWords"
  have ne: "?exps \<noteq> []" by simp
  have d: "jobPosting.description (examplePosting eightWords) \<noteq> []"
    by (simp add: examplePosting_def eightWords_def)
  have tr: "\<forall>a \<in> set (map (withScore ?kws) ?exps). \<forall>b \<in> set (map (withScore ?kws) ?exps).
           \<forall>c \<in> set (map (withScore ?kws) ?exps).
             claimedPairOrder a b \<and> claimedPairOrder b c \<longrightarrow> claimedPairOrder a c"
    unfolding example_pair_scored by code_simp
  from prioritizeExperience_pair_order [OF ne refl d tr]
  obtain out where "prioritizeExperience ?kws ?exps (Some (examplePosting eightWords)) = Scored out"
    and "sorted_wrt claimedPairOrder out" by blast
  then show ?thesis using ne d unfolding example_pair_result by simp
qed

lemma cyclic_result:
  "prioritizeExperience (extractKeywords eightWords) cyclicExperience
     (Some (examplePosting eightWords))
   = Scored [scoredEntry ''Clerk'' '''' 2020 0,
             scoredEntry ''Developer'' ''alpha bravo delta gamma'' 2010 4,
             scoredEntry ''Lead'' eightWords 2000 8]"
  by code_simp

lemma cyclic_not_ordered:
  "\<not> sorted_wrt claimedPairOrder
        [scoredEntry ''Clerk'' '''' 2020 0,
         scoredEntry ''Developer'' ''alpha bravo delta gamma'' 2010 4,
         scoredEntry ''Lead'' eightWords 2000 8]"
  by code_simp

text \<open>C3 as stated fails: with scores 0, 4, 8 and start years 2020, 2010, 2000 the
  first and the last entry of the result are more than 5 apart and the lower score is
  first.\<close>

theorem prioritizeExperience_cyclic_counterexample:
  "cyclicExperience \<noteq> []
   \<and> jobPosting.description (examplePosting eightWords) \<noteq> []
   \<and> prioritizeExperience (extractKeywords eightWords) cyclicExperience
        (Some (examplePosting eightWords))
      = Scored [scoredEntry ''Clerk'' '''' 2020 0,
                scoredEntry ''Developer'' ''alpha bravo delta gamma'' 2010 4,
                scoredEntry ''Lead'' eightWords 2000 8]
   \<and> \<not> sorted_wrt claimedPairOrder
        [scoredEntry ''Clerk'' '''' 2020 0,
         scoredEntry ''Developer'' ''alpha bravo delta gamma'' 2010 4,
         scoredEntry ''Lead'' eightWords 2000 8]"
proof -
  have "cyclicExperience \<noteq> []" by (simp add: cyclicExperience_def)
  moreover have "jobPosting.description (examplePosting eightWords) \<noteq> []"
    by (simp add: examplePosting_def eightWords_def)
  ultimately show ?thesis using cyclic_result cyclic_not_ordered by simp
qed

text \<open>The failure does not depend on how the engine sorts with an inconsistent
  comparison function: no arrangement of these three scored entries puts every pair in
  the claimed order.\<close>

lemma cyclic_no_arrangement:
  assumes "mset ys = mset [scoredEntry ''Clerk'' '''' 2020 0,
                           scoredEntry ''Developer'' ''alpha bravo delta gamma'' 2010 4,
                           scoredEntry ''Lead'' eightWords 2000 8]"
  shows "\<not> sorted_wrt claimedPairOrder ys"
proof
  define A where "A = scoredEntry ''Clerk'' '''' 2020 0"
  define B where "B = scoredEntry ''Developer'' ''alpha bravo delta gamma'' 2010 4"
  define C where "C = scoredEntry ''Lead'' eightWords 2000 8"
  have AC: "\<not> claimedPairOrder A C" unfolding A_def C_def by code_simp
  have BA: "\<not> claimedPairOrder B A" unfolding A_def B_def by code_simp
  have CB: "\<not> claimedPairOrder C B" unfolding B_def C_def by code_simp
  have dist: "distinct [A, B, C]" unfolding A_def B_def C_def by code_simp
  assume srt: "sorted_wrt claimedPairOrder ys"
  have m: "mset ys = mset [A, B, C]" using assms by (simp add: A_def B_def C_def)
  then have s: "set ys = {A, B, C}" by (metis list.simps(15) set_mset_mset empty_set)
  have d: "distinct ys" using m dist by (metis mset_eq_imp_distinct_iff)
  from s obtain x rest where ys: "ys = x # rest" by (cases ys) auto
  have first: "\<forall>z \<in> set rest. claimedPairOrder x z" using srt ys by simp
  have xr: "x \<notin> set rest" and sr: "insert x (set rest) = {A, B, C}"
    using d s ys by auto
  from sr have "x = A \<or> x = B \<or> x = C" by blast
  then show False
  proof (elim disjE)
    assume "x = A"
    with sr xr dist have "C \<in> set rest" by auto
    with first \<open>x = A\<close> AC show False by blast
  next
    assume "x = B"
    with sr xr dist have "A \<in> set rest" by auto
    with first \<open>x = B\<close> BA show False by blast
  next
    assume "x = C"
    with sr xr dist have "B \<in> set rest" by auto
    with first \<open>x = C\<close> CB show False by blast
  qed
qed

section \<open>The detector\<close>

lemma anyPatternMatches_eq:
  assumes "\<forall>p \<in> set ps. \<exists>b. host (globToRegex p) pageUrl = Inr b"
  shows "anyPatternMatches host pageUrl hostname ps
         = Inr (\<exists>p \<in> set ps. host (globToRegex p) pageUrl = Inr True)"
  using assms
proof (induction ps)
  case Nil
  show ?case by simp
next
  case (Cons p ps)
  from Cons.prems obtain b where b: "host (globToRegex p) pageUrl = Inr b" by auto
  have ih: "anyPatternMatches host pageUrl hostname ps
            = Inr (\<exists>p \<in> set ps. host (globToRegex p) pageUrl = Inr True)"
    by (rule Cons.IH) (use Cons.prems in simp)
  show ?case by (cases b) (simp_all add: matchPattern_def b ih)
qed

lemma anyExclusionMatches_eq:
  assumes "\<forall>p \<in> set ps. \<exists>b. host (globToRegex p) pageUrl = Inr b"
  shows "anyExclusionMatches host pageUrl ps
         = Inr (\<exists>p \<in> set ps. host (globToRegex p) pageUrl = Inr True)"
  using assms
proof (induction ps)
  case Nil
  show ?case by simp
next
  case (Cons p ps)
  from Cons.prems obtain b where b: "host (globToRegex p) pageUrl = Inr b" by auto
  have ih: "anyExclusionMatches host pageUrl ps
            = Inr (\<exists>p \<in> set ps. host (globToRegex p) pageUrl = Inr True)"
    by (rule Cons.IH) (use Cons.prems in simp)
  show ?case by (cases b) (simp_all add: b ih)
qed

lemma matchesUrl_included:
  assumes "\<forall>p \<in> set (patternsOf (urls config)). \<exists>b. host (globToRegex p) pageUrl = Inr b"
  shows "matchesUrl host pageUrl hostname config = Inr (passesInclusionTest host pageUrl config)"
proof (cases "urls config")
  case None
  then show ?thesis by (simp add: matchesUrl_def passesInclusionTest_def patternsOf_def)
next
  case (Some ps)
  with assms have "\<forall>p \<in> set ps. \<exists>b. host (globToRegex p) pageUrl = Inr b"
    by (simp add: patternsOf_def)
  then have "anyPatternMatches host pageUrl hostname ps
             = Inr (\<exists>p \<in> set ps. host (globToRegex p) pageUrl = Inr True)"
    by (rule anyPatternMatches_eq)
  with Some show ?thesis
    by (simp add: matchesUrl_def passesInclusionTest_def patternsOf_def)
qed

lemma isExcluded_excluded:
  assumes "\<forall>p \<in> set (patternsOf (urlsExcluded config)). \<exists>b. host (globToRegex p) pageUrl = Inr b"
  shows "isExcluded host pageUrl config = Inr (passesExclusionTest host pageUrl config)"
proof (cases "urlsExcluded config")
  case None
  then show ?thesis by (simp add: isExcluded_def passesExclusionTest_def patternsOf_def)
next
  case (Some ps)
  with assms have "\<forall>p \<in> set ps. \<exists>b. host (globToRegex p) pageUrl = Inr b"
    by (simp add: patternsOf_def)
  then have "anyExclusionMatches host pageUrl ps
             = Inr (\<exists>p \<in> set ps. host (globToRegex p) pageUrl = Inr True)"
    by (rule anyExclusionMatches_eq)
  with Some show ?thesis
    by (simp add: isExcluded_def passesExclusionTest_def patternsOf_def)
qed

lemma detect_find:
  assumes "patternsAccepted host pageUrl configs"
  shows "detect host configs pageUrl hostname = Inr (find (selectedByTests host pageUrl) configs)"
  using assms
proof (induction configs)
  case Nil
  show ?case by simp
next
  case (Cons entry configs)
  obtain nm config where entry: "entry = (nm, config)" by (cases entry)
  have inc: "matchesUrl host pageUrl hostname config = Inr (passesInclusionTest host pageUrl config)"
    by (rule matchesUrl_included) (use Cons.prems in \<open>simp add: patternsAccepted_def entry\<close>)
  have exc: "isExcluded host pageUrl config = Inr (passesExclusionTest host pageUrl config)"
    by (rule isExcluded_excluded) (use Cons.prems in \<open>simp add: patternsAccepted_def entry\<close>)
  have ih: "detect host configs pageUrl hostname = Inr (find (selectedByTests host pageUrl) configs)"
    by (rule Cons.IH) (use Cons.prems in \<open>simp add: patternsAccepted_def\<close>)
  have acc: "selectedByTests host pageUrl (nm, config)
             \<longleftrightarrow> passesInclusionTest host pageUrl config \<and> \<not> passesExclusionTest host pageUrl config"
    by (simp add: selectedByTests_def)
  show ?case
    by (cases "passesInclusionTest host pageUrl config"; cases "passesExclusionTest host pageUrl config")
       (simp_all add: entry inc exc ih acc)
qed

lemma anyPatternMatches_result:
  assumes "anyPatternMatches host pageUrl hostname ps = Inr b"
  shows "b \<longleftrightarrow> (\<exists>p \<in> set ps. host (globToRegex p) pageUrl = Inr True)"
  using assms
proof (induction ps)
  case Nil
  then show ?case by simp
next
  case (Cons p ps)
  show ?case
  proof (cases "host (globToRegex p) pageUrl")
    case (Inl e)
    with Cons.prems show ?thesis by (simp add: matchPattern_def)
  next
    case (Inr c)
    show ?thesis
    proof (cases c)
      case True
      with Inr Cons.prems show ?thesis by (auto simp: matchPattern_def)
    next
      case False
      with Inr Cons.prems have "anyPatternMatches host pageUrl hostname ps = Inr b"
        by (simp add: matchPattern_def)
      from Cons.IH [OF this] False Inr show ?thesis by simp
    qed
  qed
qed

lemma anyExclusionMatches_result:
  assumes "anyExclusionMatches host pageUrl ps = Inr b"
  shows "b \<longleftrightarrow> (\<exists>p \<in> set ps. host (globToRegex p) pageUrl = Inr True)"
  using assms
proof (induction ps)
  case Nil
  then show ?case by simp
next
  case (Cons p ps)
  show ?case
  proof (cases "host (globToRegex p) pageUrl")
    case (Inl e)
    with Cons.prems show ?thesis by simp
  next
    case (Inr c)
    show ?thesis
    proof (cases c)
      case True
      with Inr Cons.prems show ?thesis by auto
    next
      case False
      with Inr Cons.prems have "anyExclusionMatches host pageUrl ps = Inr b" by simp
      from Cons.IH [OF this] False Inr show ?thesis by simp
    qed
  qed
qed

lemma matchesUrl_result:
  assumes "matchesUrl host pageUrl hostname config = Inr b"
  shows "b \<longleftrightarrow> passesInclusionTest host pageUrl config"
proof (cases "urls config")
  case None
  with assms show ?thesis by (auto simp: matchesUrl_def passesInclusionTest_def patternsOf_def)
next
  case (Some ps)
  with assms have "anyPatternMatches host pageUrl hostname ps = Inr b"
    by (simp add: matchesUrl_def)
  from anyPatternMatches_result [OF this] Some show ?thesis
    by (simp add: passesInclusionTest_def patternsOf_def)
qed

lemma isExcluded_result:
  assumes "isExcluded host pageUrl config = Inr b"
  shows "b \<longleftrightarrow> passesExclusionTest host pageUrl config"
proof (cases "urlsExcluded config")
  case None
  with assms show ?thesis by (auto simp: isExcluded_def passesExclusionTest_def patternsOf_def)
next
  case (Some ps)
  with assms have "anyExclusionMatches host pageUrl ps = Inr b"
    by (simp add: isExcluded_def)
  from anyExclusionMatches_result [OF this] Some show ?thesis
    by (simp add: passesExclusionTest_def patternsOf_def)
qed

lemma detect_result:
  assumes "detect host configs pageUrl hostname = Inr r"
  shows "r = find (selectedByTests host pageUrl) configs"
  using assms
proof (induction configs)
  case Nil
  then show ?case by simp
next
  case (Cons entry configs)
  obtain nm config where entry: "entry = (nm, config)" by (cases entry)
  have acc: "selectedByTests host pageUrl (nm, config)
             \<longleftrightarrow> passesInclusionTest host pageUrl config \<and> \<not> passesExclusionTest host pageUrl config"
    by (simp add: selectedByTests_def)
  show ?case
  proof (cases "matchesUrl host pageUrl hostname config")
    case (Inl e)
    with Cons.prems show ?thesis by (simp add: entry)
  next
    case (Inr b)
    note inc = matchesUrl_result [OF Inr]
    show ?thesis
    proof (cases b)
      case False
      with Inr Cons.prems have "detect host configs pageUrl hostname = Inr r"
        by (simp add: entry)
      from Cons.IH [OF this] False inc show ?thesis by (simp add: entry acc)
    next
      case True
      show ?thesis
      proof (cases "isExcluded host pageUrl config")
        case (Inl e)
        with True Inr Cons.prems show ?thesis by (simp add: entry)
      next
        case (Inr x)
        note exc = isExcluded_result [OF Inr]
        show ?thesis
        proof (cases x)
          case True
          with \<open>b\<close> \<open>matchesUrl host pageUrl hostname config = Inr b\<close> Inr Cons.prems
          have "detect host configs pageUrl hostname = Inr r" by (simp add: entry)
          from Cons.IH [OF this] True exc show ?thesis by (simp add: entry acc)
        next
          case False
          with \<open>b\<close> \<open>matchesUrl host pageUrl hostname config = Inr b\<close> Inr Cons.prems
          have "r = Some (nm, config)" by (simp add: entry)
          with False exc inc \<open>b\<close> show ?thesis by (simp add: entry acc)
        qed
      qed
    qed
  qed
qed

text \<open>
  C2 fails on the code, by the defect of C1. The selection is as the claim says with
  respect to the detector's own two tests (\<open>detect_result\<close>, \<open>detect_find\<close>), but the
  tests are not the claim's pattern match: the translated exclusion pattern of
  Greenhouse, \<^verbatim>\<open>\.*:\/\/boards\.greenhouse\.io\/\.*\/confirmation\<close>, wants a run of dots
  where the pattern has \<^verbatim>\<open>*\<close>. A confirmation URL conforms to an inclusion pattern and
  to the exclusion pattern of Greenhouse and is returned as Greenhouse all the same;
  a Workday URL is accepted for Workday by the claim's words, and the result is
  \<^verbatim>\<open>null\<close>.
\<close>

theorem detect_returns_excluded_platform:
  "claimedIncluded ''https://boards.greenhouse.io/acme/confirmation'' (snd (shippedRegistry ! 0))
   \<and> claimedExcluded ''https://boards.greenhouse.io/acme/confirmation'' (snd (shippedRegistry ! 0))
   \<and> detect literalRegExp shippedRegistry ''https://boards.greenhouse.io/acme/confirmation''
        ''boards.greenhouse.io'' = Inr (Some (shippedRegistry ! 0))
   \<and> fst (shippedRegistry ! 0) = ''Greenhouse''
   \<and> find (claimedAccepted ''https://acme.myworkdayjobs.com/careers'') shippedRegistry
      = Some (shippedRegistry ! 2)
   \<and> detect literalRegExp shippedRegistry ''https://acme.myworkdayjobs.com/careers''
        ''acme.myworkdayjobs.com'' = Inr None"
  by code_simp

text \<open>The scenario of the specification holds: the patterns of Lever have \<^verbatim>\<open>*\<close> only at
  their ends, where a run of no dots will do for a search that is not anchored.\<close>

lemma detect_lever_scenario:
  "detect literalRegExp shippedRegistry ''https://jobs.lever.co/figma/abcd-1234'' ''jobs.lever.co''
   = Inr (Some (shippedRegistry ! 1))
   \<and> fst (shippedRegistry ! 1) = ''Lever''"
  by code_simp

text \<open>
  C1 fails on the code. The last replacement of \<^verbatim>\<open>matchPattern\<close> escapes every dot,
  also the dots that the first two replacements have just written for \<^verbatim>\<open>*\<close> and
  \<^verbatim>\<open>?\<close>: \<^verbatim>\<open>*\<close> becomes \<^verbatim>\<open>\.*\<close>, a run of dots, and \<^verbatim>\<open>?\<close> becomes \<^verbatim>\<open>\.\<close>, one dot. A URL of
  the Workday platform conforms to the registry's own pattern for it and is not
  matched; a URL conforms to a pattern with \<^verbatim>\<open>?\<close> and is not matched.
\<close>

theorem matchPattern_wildcards_are_dots:
  "claimedGlobMatch ''*://*.myworkdayjobs.com/*'' ''https://acme.myworkdayjobs.com/careers''
   \<and> matchPattern literalRegExp ''https://acme.myworkdayjobs.com/careers''
        ''acme.myworkdayjobs.com'' ''*://*.myworkdayjobs.com/*'' = Inr False
   \<and> claimedGlobMatch ''*://jobs?lever.co/*'' ''https://jobs-lever.co/figma''
   \<and> matchPattern literalRegExp ''https://jobs-lever.co/figma''
        ''jobs-lever.co'' ''*://jobs?lever.co/*'' = Inr False"
  by code_simp

section \<open>The job extractor\<close>

text \<open>
  C4 fails on the code. In the description of the scenario the words after
  \<^verbatim>\<open>5+ years of\<close> are \<^verbatim>\<open>Go and Kubernetes experience\<close>; the first pattern wants
  \<^verbatim>\<open>experience\<close> or \<^verbatim>\<open>exp\<close> right after the optional \<^verbatim>\<open>of\<close>, the second wants
  \<^verbatim>\<open>minimum\<close>, \<^verbatim>\<open>at least\<close> or \<^verbatim>\<open>min\<close>, the third a range. None matches and the
  result is \<^verbatim>\<open>null\<close>, not 5.
\<close>

theorem extractYearsOfExperience_scenario_null:
  "extractYearsOfExperience
     (Some (examplePosting ''We need 5+ years of Go and Kubernetes experience'')) = None"
  by code_simp

lemma extractYearsOfExperience_adjacent:
  "extractYearsOfExperience (Some (examplePosting ''We need 5+ years of experience in Go''))
   = Some (Number 5)"
  by code_simp

section \<open>The form filler\<close>

subsection \<open>Counting\<close>

lemma fillLoop_counts:
  "filledCount (fst (fillLoop pg ats data selectors counts st))
   + skipCount (fst (fillLoop pg ats data selectors counts st))
   = filledCount counts + skipCount counts + length selectors"
proof (induction selectors arbitrary: counts st)
  case Nil
  show ?case by simp
next
  case (Cons entry selectors)
  obtain fieldName selectorConfigs where entry: "entry = (fieldName, selectorConfigs)"
    by (cases entry)
  obtain filled st' where f: "fillField pg fieldName selectorConfigs data ats st = (filled, st')"
    by (cases "fillField pg fieldName selectorConfigs data ats st")
  show ?case
  proof (cases filled)
    case True
    then show ?thesis using f Cons.IH by (simp add: entry)
  next
    case False
    then show ?thesis using f Cons.IH by (simp add: entry)
  qed
qed

lemma fillField_resume: "fillField pg ''resume'' selectorConfigs data ats st = (False, st)"
  by (simp add: fillField_def)

lemma fillLoop_skips_resume:
  "skipCount counts + length (filter (\<lambda>entry. fst entry = ''resume'') selectors)
   \<le> skipCount (fst (fillLoop pg ats data selectors counts st))"
proof (induction selectors arbitrary: counts st)
  case Nil
  show ?case by simp
next
  case (Cons entry selectors)
  obtain fieldName selectorConfigs where entry: "entry = (fieldName, selectorConfigs)"
    by (cases entry)
  obtain filled st' where f: "fillField pg fieldName selectorConfigs data ats st = (filled, st')"
    by (cases "fillField pg fieldName selectorConfigs data ats st")
  show ?case
  proof (cases filled)
    case True
    then have "fieldName \<noteq> ''resume''" using f by (auto simp: fillField_resume)
    then show ?thesis
      using True f Cons.IH [of "counts\<lparr>filledCount := filledCount counts + 1\<rparr>" "delay pg fillDelay st'"]
      by (simp add: entry)
  next
    case False
    then show ?thesis
      using f Cons.IH [of "counts\<lparr>skipCount := skipCount counts + 1\<rparr>" "delay pg fillDelay st'"]
      by (simp add: entry)
  qed
qed

text \<open>
  C9. The result of \<^verbatim>\<open>fill\<close> counts every entry of \<^verbatim>\<open>inputSelectors\<close> once, as filled
  or as skipped, whatever the page does and whatever a candidate throws: the two counts
  add up to the number of entries, and each pass of the loop adds one to exactly one
  of them. \<open>fill\<close> has no error result, since every call that can throw is inside the
  \<^verbatim>\<open>try\<close> block of \<^verbatim>\<open>fillField\<close>.
\<close>

theorem fill_counts_every_field:
  "filledCount (fst (fill pg platform data st)) + skipCount (fst (fill pg platform data st))
   = length (inputSelectors (snd platform))
   \<and> fillLoop pg ats data ((fieldName, selectorConfigs) # selectors) counts st
     = fillLoop pg ats data selectors
         (if fst (fillField pg fieldName selectorConfigs data ats st)
          then counts\<lparr>filledCount := filledCount counts + 1\<rparr>
          else counts\<lparr>skipCount := skipCount counts + 1\<rparr>)
         (delay pg fillDelay (snd (fillField pg fieldName selectorConfigs data ats st)))"
proof
  show "filledCount (fst (fill pg platform data st)) + skipCount (fst (fill pg platform data st))
        = length (inputSelectors (snd platform))"
    by (simp add: fill_def fillLoop_counts)
  obtain filled st' where f: "fillField pg fieldName selectorConfigs data ats st = (filled, st')"
    by (cases "fillField pg fieldName selectorConfigs data ats st")
  show "fillLoop pg ats data ((fieldName, selectorConfigs) # selectors) counts st
     = fillLoop pg ats data selectors
         (if fst (fillField pg fieldName selectorConfigs data ats st)
          then counts\<lparr>filledCount := filledCount counts + 1\<rparr>
          else counts\<lparr>skipCount := skipCount counts + 1\<rparr>)
         (delay pg fillDelay (snd (fillField pg fieldName selectorConfigs data ats st)))"
    by (cases filled) (simp_all add: f)
qed

text \<open>
  C10. \<^verbatim>\<open>fillField\<close> on the field \<^verbatim>\<open>resume\<close> returns \<^verbatim>\<open>false\<close> and leaves the state as it
  was: the page, the clock and the log of looked-up locators. In \<^verbatim>\<open>fill\<close> an entry
  \<^verbatim>\<open>resume\<close> therefore adds one to \<^verbatim>\<open>skipCount\<close>, and the final \<^verbatim>\<open>skipCount\<close> is at least
  the number of such entries; \<^verbatim>\<open>fill\<close> returns before the upload starts.
\<close>

theorem fillField_resume_always_skipped:
  "fillField pg ''resume'' selectorConfigs data ats st = (False, st)
   \<and> fillLoop pg ats data ((''resume'', selectorConfigs) # selectors) counts st
     = fillLoop pg ats data selectors (counts\<lparr>skipCount := skipCount counts + 1\<rparr>)
         (delay pg fillDelay st)
   \<and> length (filter (\<lambda>entry. fst entry = ''resume'') (inputSelectors (snd platform)))
     \<le> skipCount (fst (fill pg platform data st))"
proof -
  have "length (filter (\<lambda>entry. fst entry = ''resume'') (inputSelectors (snd platform)))
        \<le> skipCount (fst (fill pg platform data st))"
    using fillLoop_skips_resume [of "\<lparr>filledCount = 0, skipCount = 0\<rparr>" "inputSelectors (snd platform)"
            pg "snd platform" data st]
    by (simp add: fill_def)
  then show ?thesis by (simp add: fillField_resume)
qed

subsection \<open>Fields without a value, fields without an element\<close>

lemma findElement_unresolved:
  assumes "\<not> resolves pg (dom st) selector"
  shows "\<exists>r. findElement pg selector st = (r, st\<lparr>queried := queried st @ [selector]\<rparr>)
             \<and> (r = Inr None \<or> (\<exists>e. r = Inl e))"
  using assms
  by (auto simp: findElement_def resolves_def split: sum.splits option.splits)

lemma firstElement_unresolved:
  assumes "\<forall>p \<in> set ps. \<not> resolves pg (dom st) p"
  shows "\<exists>r st'. firstElement pg ps st = (r, st') \<and> (r = Inr None \<or> (\<exists>e. r = Inl e))
                  \<and> dom st' = dom st \<and> clock st' = clock st"
  using assms
proof (induction ps arbitrary: st)
  case Nil
  show ?case by simp
next
  case (Cons p ps)
  let ?st1 = "st\<lparr>queried := queried st @ [p]\<rparr>"
  from Cons.prems have "\<not> resolves pg (dom st) p" by simp
  from findElement_unresolved [OF this]
  obtain r where r: "findElement pg p st = (r, ?st1)" "r = Inr None \<or> (\<exists>e. r = Inl e)" by blast
  from r(2) show ?case
  proof
    assume "r = Inr None"
    moreover have "\<exists>r st'. firstElement pg ps ?st1 = (r, st') \<and> (r = Inr None \<or> (\<exists>e. r = Inl e))
                  \<and> dom st' = dom ?st1 \<and> clock st' = clock ?st1"
      by (rule Cons.IH) (use Cons.prems in simp)
    ultimately show ?thesis using r(1) by auto
  next
    assume "\<exists>e. r = Inl e"
    then show ?thesis using r(1) by auto
  qed
qed

lemma tryFillWithSelector_unresolved:
  assumes "\<forall>p \<in> set (candidateLocators c). \<not> resolves pg (dom st) p"
  shows "\<exists>r st'. tryFillWithSelector pg fieldName c v ats st = (r, st') \<and> r \<noteq> Inr True
                  \<and> dom st' = dom st \<and> clock st' = clock st"
proof (cases c)
  case (Simple s)
  with assms have "\<not> resolves pg (dom st) (Some s)" by (simp add: candidateLocators_def)
  from findElement_unresolved [OF this] Simple show ?thesis
    by (auto simp: tryFillWithSelector_def fillSimpleSelector_def)
next
  case (Complex config)
  with assms have "\<forall>p \<in> set (pathList (cpath config)). \<not> resolves pg (dom st) p"
    by (simp add: candidateLocators_def)
  from firstElement_unresolved [OF this] Complex show ?thesis
    by (auto simp: tryFillWithSelector_def fillComplexSelector_def)
next
  case NullConfig
  then show ?thesis by (simp add: tryFillWithSelector_def)
next
  case OtherConfig
  then show ?thesis by (simp add: tryFillWithSelector_def)
qed

lemma tryCandidates_unresolved:
  assumes "\<forall>c \<in> set cs. \<forall>p \<in> set (candidateLocators c). \<not> resolves pg (dom st) p"
  shows "fst (tryCandidates pg fieldName cs v ats st) = False
         \<and> dom (snd (tryCandidates pg fieldName cs v ats st)) = dom st
         \<and> clock (snd (tryCandidates pg fieldName cs v ats st)) = clock st"
  using assms
proof (induction cs arbitrary: st)
  case Nil
  show ?case by simp
next
  case (Cons c cs)
  from Cons.prems have "\<forall>p \<in> set (candidateLocators c). \<not> resolves pg (dom st) p" by simp
  from tryFillWithSelector_unresolved [OF this, of fieldName v ats]
  obtain r st' where t: "tryFillWithSelector pg fieldName c v ats st = (r, st')" "r \<noteq> Inr True"
    "dom st' = dom st" "clock st' = clock st" by blast
  have ih: "fst (tryCandidates pg fieldName cs v ats st') = False
         \<and> dom (snd (tryCandidates pg fieldName cs v ats st')) = dom st'
         \<and> clock (snd (tryCandidates pg fieldName cs v ats st')) = clock st'"
    by (rule Cons.IH) (use Cons.prems t(3) in simp)
  have "tryCandidates pg fieldName (c # cs) v ats st = tryCandidates pg fieldName cs v ats st'"
    using t(1,2) by (cases r) (auto split: bool.splits)
  with ih t(3,4) show ?case by simp
qed

lemma noValue_iff: "noValue v \<longleftrightarrow> v = Undefined \<or> v = Null \<or> v = Str [] \<or> v = NaNValue"
  by (cases v) (auto simp: noValue_def truthy_def)

lemma fillField_with_value:
  assumes "fieldName \<noteq> ''resume''" and "\<not> noValue (getValueForField fieldName data)"
  shows "fillField pg fieldName selectorConfigs data ats st
         = tryCandidates pg fieldName (configList selectorConfigs)
             (getValueForField fieldName data) ats st"
  using assms by (simp add: fillField_def Let_def)

text \<open>
  C5. A field whose value is missing or falsy, other than 0 and \<^verbatim>\<open>false\<close>, is skipped
  at once: the result is \<^verbatim>\<open>false\<close> and the state is unchanged, so no locator was looked
  up. The values 0 and \<^verbatim>\<open>false\<close> are not skipped: for a field other than \<^verbatim>\<open>resume\<close> with
  one of them, as with any value that is not of the skipped kind, \<^verbatim>\<open>fillField\<close> goes
  through the candidates with that value. A field none of whose candidate locators
  resolves to an element (each gives \<^verbatim>\<open>null\<close> or throws) is skipped as well: the result
  is \<^verbatim>\<open>false\<close>, the page and the clock are as before. \<open>fillField\<close> has no error result:
  what a candidate throws is caught.
\<close>

theorem fillField_skips:
  "(noValue v \<longleftrightarrow> v = Undefined \<or> v = Null \<or> v = Str [] \<or> v = NaNValue)
   \<and> (noValue (getValueForField fieldName data)
        \<longrightarrow> fillField pg fieldName selectorConfigs data ats st = (False, st))
   \<and> (fieldName \<noteq> ''resume''
        \<and> (getValueForField fieldName data = Num 0 \<or> getValueForField fieldName data = Bool False)
        \<longrightarrow> fillField pg fieldName selectorConfigs data ats st
            = tryCandidates pg fieldName (configList selectorConfigs)
                (getValueForField fieldName data) ats st)
   \<and> (fieldName \<noteq> ''resume'' \<and> \<not> noValue (getValueForField fieldName data)
        \<longrightarrow> fillField pg fieldName selectorConfigs data ats st
            = tryCandidates pg fieldName (configList selectorConfigs)
                (getValueForField fieldName data) ats st)
   \<and> ((\<forall>c \<in> set (configList selectorConfigs). \<forall>p \<in> set (candidateLocators c).
          \<not> resolves pg (dom st) p)
        \<longrightarrow> fst (fillField pg fieldName selectorConfigs data ats st) = False
            \<and> dom (snd (fillField pg fieldName selectorConfigs data ats st)) = dom st
            \<and> clock (snd (fillField pg fieldName selectorConfigs data ats st)) = clock st)"
proof -
  have a: "noValue v \<longleftrightarrow> v = Undefined \<or> v = Null \<or> v = Str [] \<or> v = NaNValue"
    by (rule noValue_iff)
  have b: "fillField pg fieldName selectorConfigs data ats st = (False, st)"
    if "noValue (getValueForField fieldName data)"
    using that by (simp add: fillField_def)
  have d: "fillField pg fieldName selectorConfigs data ats st
            = tryCandidates pg fieldName (configList selectorConfigs)
                (getValueForField fieldName data) ats st"
    if "fieldName \<noteq> ''resume'' \<and> \<not> noValue (getValueForField fieldName data)"
    using that by (simp add: fillField_with_value)
  have c: "fillField pg fieldName selectorConfigs data ats st
            = tryCandidates pg fieldName (configList selectorConfigs)
                (getValueForField fieldName data) ats st"
    if "fieldName \<noteq> ''resume''
        \<and> (getValueForField fieldName data = Num 0 \<or> getValueForField fieldName data = Bool False)"
  proof -
    from that have "\<not> noValue (getValueForField fieldName data)"
      by (auto simp: noValue_iff)
    with that show ?thesis by (simp add: fillField_with_value)
  qed
  have e: "fst (fillField pg fieldName selectorConfigs data ats st) = False
            \<and> dom (snd (fillField pg fieldName selectorConfigs data ats st)) = dom st
            \<and> clock (snd (fillField pg fieldName selectorConfigs data ats st)) = clock st"
    if un: "\<forall>c \<in> set (configList selectorConfigs). \<forall>p \<in> set (candidateLocators c).
          \<not> resolves pg (dom st) p"
    using tryCandidates_unresolved [OF un, of fieldName "getValueForField fieldName data" ats]
    by (simp add: fillField_def Let_def)
  from a b c d e show ?thesis by blast
qed

lemma blank_unresolved: "\<not> resolves blankPage w p"
  by (cases p) (simp_all add: resolves_def findNode_def blankPage_def)

lemma false_is_filled_in:
  "tryCandidates recordingPage ''authorized_to_work'' [Simple ''#authorized''] (Bool False)
     leverConfig recordingStart
   = (True,
      \<lparr>clock = 0, queried = [Some ''#authorized''],
       dom = [(2, Focus), (2, SetValue (Str [])), (2, SetValue (Bool False)),
              (2, Dispatch ''input''), (2, Dispatch ''change''), (2, Dispatch ''blur'')]\<rparr>)"
  by code_simp

theorem fillField_skips_witness:
  "noValue (getValueForField ''email'' firstNameOnly)
   \<and> fillField blankPage ''email'' (SingleConfig (Simple ''#email'')) firstNameOnly leverConfig startState
     = (False, startState)
   \<and> \<not> noValue (getValueForField ''first_name'' firstNameOnly)
   \<and> fst (fillField blankPage ''first_name''
             (ConfigList [Simple ''#first_name'', NullConfig, Complex (dropdownConfig [])])
             firstNameOnly leverConfig startState) = False
   \<and> getValueForField ''authorized_to_work'' exampleProfile = Bool False
   \<and> fillField recordingPage ''authorized_to_work'' (SingleConfig (Simple ''#authorized''))
        exampleProfile leverConfig recordingStart
      = (True,
         \<lparr>clock = 0, queried = [Some ''#authorized''],
          dom = [(2, Focus), (2, SetValue (Str [])), (2, SetValue (Bool False)),
                 (2, Dispatch ''input''), (2, Dispatch ''change''), (2, Dispatch ''blur'')]\<rparr>)"
proof -
  have v1: "noValue (getValueForField ''email'' firstNameOnly)" by code_simp
  have v2: "\<not> noValue (getValueForField ''first_name'' firstNameOnly)" by code_simp
  have v3: "getValueForField ''authorized_to_work'' exampleProfile = Bool False" by code_simp
  have un: "\<forall>c \<in> set (configList (ConfigList [Simple ''#first_name'', NullConfig, Complex (dropdownConfig [])])).
              \<forall>p \<in> set (candidateLocators c). \<not> resolves blankPage (dom startState) p"
    by (simp add: blank_unresolved)
  from fillField_skips [of Undefined "''email''" firstNameOnly blankPage
         "SingleConfig (Simple ''#email'')" leverConfig startState] v1
  have a: "fillField blankPage ''email'' (SingleConfig (Simple ''#email'')) firstNameOnly leverConfig startState
     = (False, startState)" by blast
  from fillField_skips [of Undefined "''first_name''" firstNameOnly blankPage
         "ConfigList [Simple ''#first_name'', NullConfig, Complex (dropdownConfig [])]"
         leverConfig startState] un
  have b: "fst (fillField blankPage ''first_name''
             (ConfigList [Simple ''#first_name'', NullConfig, Complex (dropdownConfig [])])
             firstNameOnly leverConfig startState) = False" by blast
  have ne: "''authorized_to_work'' \<noteq> ''resume''" by simp
  from fillField_skips [of Undefined "''authorized_to_work''" exampleProfile recordingPage
         "SingleConfig (Simple ''#authorized'')" leverConfig recordingStart] v3 ne
  have f: "fillField recordingPage ''authorized_to_work'' (SingleConfig (Simple ''#authorized''))
          exampleProfile leverConfig recordingStart
        = tryCandidates recordingPage ''authorized_to_work''
            (configList (SingleConfig (Simple ''#authorized'')))
            (getValueForField ''authorized_to_work'' exampleProfile) leverConfig recordingStart"
    by blast
  have g: "configList (SingleConfig (Simple ''#authorized'')) = [Simple ''#authorized'']"
    by (simp add: configList_def)
  have c: "fillField recordingPage ''authorized_to_work'' (SingleConfig (Simple ''#authorized''))
        exampleProfile leverConfig recordingStart
      = (True,
         \<lparr>clock = 0, queried = [Some ''#authorized''],
          dom = [(2, Focus), (2, SetValue (Str [])), (2, SetValue (Bool False)),
                 (2, Dispatch ''input''), (2, Dispatch ''change''), (2, Dispatch ''blur'')]\<rparr>)"
    unfolding f g v3 by (rule false_is_filled_in)
  from v1 v2 v3 a b c show ?thesis by blast
qed

subsection \<open>A wait that times out\<close>

lemma pollState_shift:
  "pollState pg p n (delay pg 100 (st\<lparr>queried := queried st @ [Some p]\<rparr>)) = pollState pg p (Suc n) st"
  by simp









lemma actionStep_uploadResume:
  "amethod a = Some ''uploadResume'' \<Longrightarrow> actionStep pg config v a cur st = Continues cur st"
  by (simp add: actionStep_def)






lemma wait_allowed_example:
  "fillField recordingPage ''country''
     (ConfigList [Complex (dropdownConfig
        [plainStep ''click'', waitingStep ''click'' True, plainStep ''blur''])])
     exampleProfile leverConfig recordingStart
   = (True,
      \<lparr>clock = 300,
       queried = [Some ''.//button[@data-country]'', Some ''//ul[@role]//li'',
                  Some ''//ul[@role]//li'', Some ''//ul[@role]//li''],
       dom = [(1, Click), (1, Click), (1, Dispatch ''blur'')]\<rparr>)"
  by code_simp


end
